theory Spec2Isabelle
  imports Complex_Main "HOL-Library.Char_ord" "HOL-Library.List_Lexorder" "HOL-Library.AList"
begin

section \<open>Credential store entries and secret masking\<close>

text \<open>
  \<^verbatim>\<open>interface ApiKeyEntry { id; key; name?; note?; createdAt }\<close> of \<^verbatim>\<open>main.ts\<close>.
  Field names carry the prefix \<open>entry_\<close> where another record of this theory has a field
  of the same name.  Optional members are \<open>option\<close> values.
\<close>

record ApiKeyEntry =
  entry_id :: string
  entry_key :: string
  entry_name :: "string option"
  entry_note :: "string option"
  createdAt :: nat

text \<open>
  \<^verbatim>\<open>`${key.substring(0, 4)}...${key.substring(key.length - 4)}`\<close>:
  \<^verbatim>\<open>substring\<close> clamps a negative start to 0, as the truncating subtraction of \<open>nat\<close> does.
\<close>

definition maskedKey :: "string \<Rightarrow> string" where
  "maskedKey k = take 4 k @ ''...'' @ drop (length k - 4) k"

text \<open>\<^verbatim>\<open>`${key.substring(0, 4)}...`\<close>, the form used on the error returns and in the import log.\<close>

definition prefixKey :: "string \<Rightarrow> string" where
  "prefixKey k = take 4 k @ ''...''"

text \<open>Decimal rendering of a number inside a template literal.\<close>

definition digit_char :: "nat \<Rightarrow> char" where
  "digit_char d = ''0123456789'' ! d"

fun show_nat :: "nat \<Rightarrow> string" where
  "show_nat n = (if n < 10 then [digit_char n] else show_nat (n div 10) @ [digit_char (n mod 10)])"

declare show_nat.simps [simp del]

section \<open>The remote usage endpoint\<close>

text \<open>
  What the code reads of the JSON document
  \<^verbatim>\<open>{ usage: { startDate, endDate, standard: { orgTotalTokensUsed, totalAllowance, usedRatio } } }\<close>.
  A member that is absent (or falsy, for \<^verbatim>\<open>usage\<close> and \<^verbatim>\<open>standard\<close>, which the code only tests
  with \<^verbatim>\<open>!\<close>) is \<open>None\<close>; so is a timestamp that is absent or \<^verbatim>\<open>null\<close>, which \<^verbatim>\<open>formatDate\<close>
  treats alike.  The numeric leaves are numbers, \<^verbatim>\<open>null\<close> or absent; credits are integers.
\<close>

text \<open>
  A numeric member of a JSON object as JavaScript sees it: absent (\<^verbatim>\<open>undefined\<close>), \<^verbatim>\<open>null\<close>,
  or a number.
\<close>

datatype 'a JsValue = Undefined | Null | Number 'a

record StandardUsage =
  std_orgTotalTokensUsed :: "int JsValue"
  std_totalAllowance :: "int JsValue"
  std_usedRatio :: "rat JsValue"

record UsageInfo =
  usage_startDate :: "int option"
  usage_endDate :: "int option"
  usage_standard :: "StandardUsage option"

text \<open>
  The value \<^verbatim>\<open>response.json()\<close> resolves to: JSON \<^verbatim>\<open>null\<close> (on which \<^verbatim>\<open>apiData.usage\<close> throws a
  TypeError) or any other value, with its truthy \<^verbatim>\<open>usage\<close> member if it has one.
\<close>

datatype ApiData = JsonNull | JsonDoc "UsageInfo option"

text \<open>
  A response: its status, what \<^verbatim>\<open>response.text()\<close> resolves to and what \<^verbatim>\<open>response.json()\<close>
  resolves to; \<open>None\<close> when the call rejects (the body cannot be read, or is not JSON).
\<close>

record Response =
  status :: nat
  body_text :: "string option"
  body_json :: "ApiData option"

definition ok :: "Response \<Rightarrow> bool" where
  "ok r = (200 \<le> status r \<and> status r \<le> 299)"

text \<open>\<^verbatim>\<open>await fetch(...)\<close> either rejects (with the message of the exception) or resolves.\<close>

datatype FetchOutcome = Rejected string | Resolved Response

text \<open>
  The environment of the server: the outcome of the remote call made for a stored entry
  (named by its id and carrying its secret as bearer token), the completion rank of that
  call among concurrent ones, the rendering \<^verbatim>\<open>new Date(t).toISOString().split('T')[0]\<close> of
  a timestamp in range, and the formatted clock reading of \<^verbatim>\<open>update_time\<close>.  The store may
  throw: \<open>deleteFails\<close> says for which id \<^verbatim>\<open>kv.delete\<close> throws; \<open>listFails\<close> and \<open>setFails\<close>
  say in which turn of the import loop \<^verbatim>\<open>kv.list\<close> and \<^verbatim>\<open>kv.set\<close> throw (turn 0 is also the
  one listing of the clean route).  \<open>idTime\<close> and \<open>saveTime\<close> are the readings of
  \<^verbatim>\<open>Date.now()\<close> in a turn of the import loop, for the id and for \<^verbatim>\<open>createdAt\<close>.
\<close>

record Env =
  remote :: "string \<Rightarrow> string \<Rightarrow> FetchOutcome"
  rank :: "string \<Rightarrow> nat"
  isoDate :: "int \<Rightarrow> string"
  nowFormatted :: string
  deleteFails :: "string \<Rightarrow> bool"
  listFails :: "nat \<Rightarrow> bool"
  setFails :: "nat \<Rightarrow> bool"
  idTime :: "nat \<Rightarrow> nat"
  saveTime :: "nat \<Rightarrow> nat"

section \<open>fetchApiKeyData\<close>

text \<open>
  The object \<^verbatim>\<open>fetchApiKeyData\<close> returns: \<^verbatim>\<open>{ id, key, error }\<close> or
  \<^verbatim>\<open>{ id, key, startDate, endDate, orgTotalTokensUsed, totalAllowance, usedRatio }\<close>; a member
  the object does not have is \<open>None\<close>.
\<close>

record FetchResult =
  res_id :: string
  res_key :: string
  error :: "string option"
  startDate :: "string option"
  endDate :: "string option"
  orgTotalTokensUsed :: "int JsValue"
  totalAllowance :: "int JsValue"
  usedRatio :: "rat JsValue"

definition failure :: "string \<Rightarrow> string \<Rightarrow> string \<Rightarrow> FetchResult" where
  "failure i k e = \<lparr>res_id = i, res_key = prefixKey k, error = Some e, startDate = None,
     endDate = None, orgTotalTokensUsed = Undefined, totalAllowance = Undefined, usedRatio = Undefined\<rparr>"

text \<open>
  \<^verbatim>\<open>formatDate\<close>: \<^verbatim>\<open>if (!timestamp && timestamp !== 0) return 'N/A'\<close>; \<^verbatim>\<open>toISOString\<close> throws a
  RangeError outside \<open>\<plusminus>8.64e15\<close> ms, which the inner \<^verbatim>\<open>catch\<close> turns into \<^verbatim>\<open>'Invalid Date'\<close>.
\<close>

definition formatDate :: "Env \<Rightarrow> int option \<Rightarrow> string" where
  "formatDate env t =
     (case t of
        None \<Rightarrow> ''N/A''
      | Some n \<Rightarrow> if \<bar>n\<bar> \<le> 8640000000000000 then isoDate env n else ''Invalid Date'')"

text \<open>
  The body of the \<^verbatim>\<open>try\<close> block.  \<open>Inl\<close> is an exception thrown inside it (with its message);
  \<open>Inr\<close> is the value returned together with the lines written by \<^verbatim>\<open>console.error\<close>.
\<close>

definition fetchApiKeyData_try :: "Env \<Rightarrow> string \<Rightarrow> string \<Rightarrow> string + (FetchResult \<times> string list)" where
  "fetchApiKeyData_try env i k =
     (case remote env i k of
        Rejected msg \<Rightarrow> Inl msg
      | Resolved response \<Rightarrow>
          if \<not> ok response then
            (case body_text response of
               None \<Rightarrow> Inl ''body unreadable''
             | Some errorBody \<Rightarrow>
                 Inr (failure i k (''HTTP '' @ show_nat (status response)),
                      [''Error fetching data for key ID '' @ i @ '': '' @ show_nat (status response)
                         @ '' '' @ errorBody]))
          else
            (case body_json response of
               None \<Rightarrow> Inl ''body is not JSON''
             | Some JsonNull \<Rightarrow> Inl ''Cannot read properties of null''
             | Some (JsonDoc None) \<Rightarrow> Inr (failure i k ''Invalid API response structure'', [])
             | Some (JsonDoc (Some usageInfo)) \<Rightarrow>
                 (case usage_standard usageInfo of
                    None \<Rightarrow> Inr (failure i k ''Invalid API response structure'', [])
                  | Some standardUsage \<Rightarrow>
                      Inr (\<lparr>res_id = i, res_key = maskedKey k, error = None,
                            startDate = Some (formatDate env (usage_startDate usageInfo)),
                            endDate = Some (formatDate env (usage_endDate usageInfo)),
                            orgTotalTokensUsed = std_orgTotalTokensUsed standardUsage,
                            totalAllowance = std_totalAllowance standardUsage,
                            usedRatio = std_usedRatio standardUsage\<rparr>, []))))"

text \<open>The whole function: the \<^verbatim>\<open>catch\<close> clause turns every exception into a result.\<close>

definition fetchApiKeyData :: "Env \<Rightarrow> string \<Rightarrow> string \<Rightarrow> FetchResult \<times> string list" where
  "fetchApiKeyData env i k =
     (case fetchApiKeyData_try env i k of
        Inr out \<Rightarrow> out
      | Inl msg \<Rightarrow> (failure i k ''Failed to fetch'', [''Failed to process key ID '' @ i @ '': '' @ msg]))"

section \<open>getAggregatedData\<close>

text \<open>\<^verbatim>\<open>!r.error\<close>: the member is absent or the empty string.\<close>

definition has_error :: "FetchResult \<Rightarrow> bool" where
  "has_error r = (case error r of None \<Rightarrow> False | Some e \<Rightarrow> e \<noteq> [])"

text \<open>\<^verbatim>\<open>x || 0\<close> on a numeric member: \<^verbatim>\<open>undefined\<close>, \<^verbatim>\<open>null\<close> and 0 are falsy.\<close>

definition or0 :: "int JsValue \<Rightarrow> int" where
  "or0 x = (case x of Undefined \<Rightarrow> 0 | Null \<Rightarrow> 0 | Number n \<Rightarrow> n)"

record Totals =
  total_orgTotalTokensUsed :: int
  total_totalAllowance :: int

record AggregateView =
  update_time :: string
  total_count :: nat
  totals :: Totals
  data :: "FetchResult list"

text \<open>The callback of \<^verbatim>\<open>validResults.reduce\<close>.\<close>

definition add_result :: "Totals \<Rightarrow> FetchResult \<Rightarrow> Totals" where
  "add_result acc res =
     \<lparr>total_orgTotalTokensUsed = total_orgTotalTokensUsed acc + or0 (orgTotalTokensUsed res),
      total_totalAllowance = total_totalAllowance acc + or0 (totalAllowance res)\<rparr>"

definition remaining :: "FetchResult \<Rightarrow> int" where
  "remaining r = or0 (totalAllowance r) - or0 (orgTotalTokensUsed r)"

text \<open>
  The lines of the balance report.  The two headings are Chinese text in the source
  (``API keys with remaining balance above 0'' and ``no API key has remaining balance above
  0''); they are written in English here.  Every other line is as in the source; in
  particular a line of the report is \<^verbatim>\<open>originalEntry.key\<close>, the stored secret itself.
\<close>

definition balance_report :: "ApiKeyEntry list \<Rightarrow> FetchResult list \<Rightarrow> string list" where
  "balance_report keyEntries keysWithBalance =
     (if length keysWithBalance > 0 then
        [CHR 0x0A # replicate 80 CHR ''='', ''API keys with remaining balance above 0:'',
         replicate 80 CHR ''-'']
        @ concat (map (\<lambda>item. case find (\<lambda>e. entry_id e = res_id item) keyEntries of
                                 None \<Rightarrow> [] | Some originalEntry \<Rightarrow> [entry_key originalEntry])
                      keysWithBalance)
        @ [replicate 80 CHR ''='' @ [CHR 0x0A]]
      else [''no API key has remaining balance above 0''])"

text \<open>
  \<^verbatim>\<open>getAggregatedData\<close>, on the entries \<^verbatim>\<open>getAllApiKeys()\<close> returned.  \<open>Inl\<close> is the message of
  the \<^verbatim>\<open>Error\<close> it throws.  The second component is the console output: the lines of the
  fetches (in entry order) and then the balance report.
\<close>

definition getAggregatedData :: "Env \<Rightarrow> ApiKeyEntry list \<Rightarrow> (string + AggregateView) \<times> string list" where
  "getAggregatedData env keyEntries =
     (if length keyEntries = 0 then
        (Inl ''No API keys found in storage. Please import keys first.'', [])
      else
        let fetched = map (\<lambda>entry. fetchApiKeyData env (entry_id entry) (entry_key entry)) keyEntries;
            results = map fst fetched;
            validResults = filter (\<lambda>r. \<not> has_error r) results;
            totals = foldl add_result
                       \<lparr>total_orgTotalTokensUsed = 0, total_totalAllowance = 0\<rparr> validResults;
            keysWithBalance = filter (\<lambda>r. remaining r > 0) validResults
        in (Inr \<lparr>update_time = nowFormatted env, total_count = length keyEntries,
                  totals = totals, data = results\<rparr>,
            concat (map snd fetched) @ balance_report keyEntries keysWithBalance))"

text \<open>
  The \<^verbatim>\<open>/api/data\<close> route: the status of the response and its JSON body, which is the view
  or \<^verbatim>\<open>{ error: error.message }\<close>.
\<close>

datatype DataBody = ViewBody AggregateView | ErrorBody string

definition api_data :: "Env \<Rightarrow> ApiKeyEntry list \<Rightarrow> nat \<times> DataBody" where
  "api_data env keyEntries =
     (case fst (getAggregatedData env keyEntries) of
        Inr v \<Rightarrow> (200, ViewBody v)
      | Inl msg \<Rightarrow> (500, ErrorBody msg))"

section \<open>The key-value store\<close>

text \<open>
  The entries under the prefix \<^verbatim>\<open>["apikeys"]\<close>, in the order \<^verbatim>\<open>kv.list\<close> iterates them, which
  is the order of their keys (strings compare byte by byte).  \<^verbatim>\<open>getAllApiKeys\<close> returns this
  list.  \<^verbatim>\<open>kv.set\<close> replaces the entry stored under the key or adds one at its place in the
  order; \<^verbatim>\<open>kv.delete\<close> removes the entry stored under the key, if any.
\<close>

type_synonym Store = "ApiKeyEntry list"

definition kv_set :: "string \<Rightarrow> ApiKeyEntry \<Rightarrow> Store \<Rightarrow> Store" where
  "kv_set i e s = insort_key entry_id e (filter (\<lambda>x. entry_id x \<noteq> i) s)"

definition deleteApiKey :: "string \<Rightarrow> Store \<Rightarrow> Store" where
  "deleteApiKey i s = filter (\<lambda>x. entry_id x \<noteq> i) s"

definition getApiKey :: "string \<Rightarrow> Store \<Rightarrow> ApiKeyEntry option" where
  "getApiKey i s = find (\<lambda>x. entry_id x = i) s"

text \<open>\<^verbatim>\<open>saveApiKey(id, key, name)\<close> at clock reading \<open>now\<close>; \<^verbatim>\<open>name || `Key ${id}`\<close>.\<close>

definition saveApiKey :: "nat \<Rightarrow> string \<Rightarrow> string \<Rightarrow> string option \<Rightarrow> Store \<Rightarrow> Store" where
  "saveApiKey now i k nm s =
     kv_set i \<lparr>entry_id = i, entry_key = k,
               entry_name = Some (case nm of None \<Rightarrow> ''Key '' @ i
                                   | Some n \<Rightarrow> if n = [] then ''Key '' @ i else n),
               entry_note = None, createdAt = now\<rparr> s"

definition checkDuplicateKey :: "string \<Rightarrow> Store \<Rightarrow> bool" where
  "checkDuplicateKey k allKeys = list_ex (\<lambda>entry. entry_key entry = k) allKeys"

section \<open>findDuplicateKeys and the duplicates/clean route\<close>

text \<open>
  \<^verbatim>\<open>keyMap\<close> is a JavaScript \<^verbatim>\<open>Map\<close>: it iterates in the order its keys were first set, and
  setting a key it has leaves the key where it is.  An association list with
  \<open>AList.update\<close> does the same.
\<close>

definition group_step :: "(string \<times> string list) list \<Rightarrow> ApiKeyEntry \<Rightarrow> (string \<times> string list) list" where
  "group_step keyMap entry =
     (let existing = (case map_of keyMap (entry_key entry) of None \<Rightarrow> [] | Some l \<Rightarrow> l)
      in AList.update (entry_key entry) (existing @ [entry_id entry]) keyMap)"

record DuplicateGroup =
  dup_key :: string
  ids :: "string list"
  count :: nat

definition findDuplicateKeys :: "Store \<Rightarrow> DuplicateGroup list" where
  "findDuplicateKeys allKeys =
     (let keyMap = foldl group_step [] allKeys
      in map (\<lambda>(k, l). \<lparr>dup_key = maskedKey k, ids = l, count = length l\<rparr>)
           (filter (\<lambda>(k, l). length l > 1) keyMap))"

text \<open>
  The two loops of the route \<^verbatim>\<open>/api/keys/duplicates/clean\<close>.  They run inside one \<^verbatim>\<open>try\<close>: a
  \<^verbatim>\<open>deleteApiKey\<close> that throws ends both, and the store keeps the deletions made so far.
  The result is the store and either the message of the exception or \<^verbatim>\<open>deletedCount\<close>.
\<close>

fun delete_each :: "Env \<Rightarrow> string list \<Rightarrow> Store \<Rightarrow> nat \<Rightarrow> Store \<times> (string + nat)" where
  "delete_each env [] s n = (s, Inr n)"
| "delete_each env (i # rest) s n =
     (if deleteFails env i then (s, Inl ''kv.delete failed'')
      else delete_each env rest (deleteApiKey i s) (n + 1))"

fun clean_groups :: "Env \<Rightarrow> DuplicateGroup list \<Rightarrow> Store \<Rightarrow> nat \<Rightarrow> Store \<times> (string + nat)" where
  "clean_groups env [] s n = (s, Inr n)"
| "clean_groups env (duplicate # rest) s n =
     (case delete_each env (drop 1 (ids duplicate)) s n of
        (s', Inl msg) \<Rightarrow> (s', Inl msg)
      | (s', Inr n') \<Rightarrow> clean_groups env rest s' n')"

text \<open>The JSON bodies of the routes that change the store.\<close>

datatype CleanBody = Cleaned nat string | CleanFailed string

definition duplicates_clean :: "Env \<Rightarrow> Store \<Rightarrow> Store \<times> nat \<times> CleanBody" where
  "duplicates_clean env s =
     (if listFails env 0 then (s, 500, CleanFailed ''kv.list failed'')
      else case clean_groups env (findDuplicateKeys s) s 0 of
             (s', Inr deletedCount) \<Rightarrow>
               (s', 200, Cleaned deletedCount
                  (''Successfully deleted '' @ show_nat deletedCount @ '' duplicate keys''))
           | (s', Inl msg) \<Rightarrow> (s', 500, CleanFailed msg))"

section \<open>batchImportKeys\<close>

text \<open>
  \<^verbatim>\<open>String.prototype.trim\<close> removes white space and line terminators from both ends; of the
  code units below 256 these are 9 to 13, 32 and 160.
\<close>

definition is_space :: "char \<Rightarrow> bool" where
  "is_space c = (c \<in> set [CHR 0x09, CHR 0x0A, CHR 0x0B, CHR 0x0C, CHR 0x0D, CHR 0x20, CHR 0xA0])"

definition trim :: "string \<Rightarrow> string" where
  "trim s = rev (dropWhile is_space (rev (dropWhile is_space s)))"

record ImportTally =
  success :: nat
  failed :: nat
  duplicates :: nat
  duplicateKeys :: "string list"

text \<open>
  One turn of the \<^verbatim>\<open>for\<close> loop, for index \<open>i\<close> and \<^verbatim>\<open>keys[i] = raw\<close>, on the store, the
  tally and the console output.  \<^verbatim>\<open>checkDuplicateKey\<close> reads the whole store and
  \<^verbatim>\<open>saveApiKey\<close> writes it; either may throw, inside the \<^verbatim>\<open>try\<close>.
\<close>

definition import_entry :: "Env \<Rightarrow> nat \<Rightarrow> string \<Rightarrow> Store \<times> ImportTally \<times> string list
    \<Rightarrow> Store \<times> ImportTally \<times> string list" where
  "import_entry env i raw st =
     (case st of (s, t, lg) \<Rightarrow>
        let k = trim raw in
        if length k > 0 then
          if listFails env i then
            (s, t\<lparr>failed := failed t + 1\<rparr>, lg @ [''Failed to import key '' @ show_nat i @ '':''])
          else if checkDuplicateKey k s then
            (s, t\<lparr>duplicates := duplicates t + 1, duplicateKeys := duplicateKeys t @ [maskedKey k]\<rparr>,
             lg @ [''Skipped duplicate key: '' @ prefixKey k])
          else
            let i' = ''key-'' @ show_nat (idTime env i) @ ''-'' @ show_nat i in
            if setFails env i then
              (s, t\<lparr>failed := failed t + 1\<rparr>, lg @ [''Failed to import key '' @ show_nat i @ '':''])
            else (saveApiKey (saveTime env i) i' k None s, t\<lparr>success := success t + 1\<rparr>, lg)
        else st)"

fun import_loop :: "Env \<Rightarrow> nat \<Rightarrow> string list \<Rightarrow> Store \<times> ImportTally \<times> string list
    \<Rightarrow> Store \<times> ImportTally \<times> string list" where
  "import_loop env i [] st = st"
| "import_loop env i (raw # rest) st = import_loop env (i + 1) rest (import_entry env i raw st)"

definition batchImportKeys :: "Env \<Rightarrow> string list \<Rightarrow> Store \<Rightarrow> Store \<times> ImportTally \<times> string list" where
  "batchImportKeys env keys s =
     import_loop env 0 keys
       (s, \<lparr>success = 0, failed = 0, duplicates = 0, duplicateKeys = []\<rparr>, [])"

section \<open>Listing, revealing and deleting keys\<close>

text \<open>The objects of \<^verbatim>\<open>safeKeys\<close> in the route \<^verbatim>\<open>GET /api/keys\<close>.\<close>

record SafeKey =
  safe_id :: string
  safe_name :: "string option"
  safe_note :: "string option"
  safe_createdAt :: nat
  masked :: string

definition list_keys :: "Store \<Rightarrow> SafeKey list" where
  "list_keys keys =
     map (\<lambda>k. \<lparr>safe_id = entry_id k, safe_name = entry_name k, safe_note = entry_note k,
                safe_createdAt = createdAt k, masked = maskedKey (entry_key k)\<rparr>) keys"

text \<open>The route \<^verbatim>\<open>GET /api/keys/:id/full\<close>: status and \<^verbatim>\<open>{ key }\<close> or \<^verbatim>\<open>{ error }\<close>.\<close>

datatype FullBody = FullKey string | FullError string

definition full_key :: "string \<Rightarrow> Store \<Rightarrow> nat \<times> FullBody" where
  "full_key i s =
     (if i = [] then (400, FullError ''Key ID required'')
      else case getApiKey i s of
             None \<Rightarrow> (404, FullError ''Key not found'')
           | Some keyEntry \<Rightarrow> (200, FullKey (entry_key keyEntry)))"

text \<open>
  The route \<^verbatim>\<open>POST /api/keys/batch-delete\<close>: each id is deleted inside its own \<^verbatim>\<open>try\<close>.
  The deletions run concurrently; they are on different keys of the store, so their
  order does not matter, and the list order is taken.
\<close>

record BatchDeleteBody =
  deletedCount :: nat
  totalRequested :: nat
  failedIds :: "string list"
  bd_message :: string

definition delete_caught :: "Env \<Rightarrow> Store \<Rightarrow> string \<Rightarrow> Store" where
  "delete_caught env s i = (if deleteFails env i then s else deleteApiKey i s)"

definition batch_delete :: "Env \<Rightarrow> string list \<Rightarrow> Store \<Rightarrow> Store \<times> BatchDeleteBody" where
  "batch_delete env ids_req s =
     (let results = map (\<lambda>i. (i, \<not> deleteFails env i)) ids_req
      in (foldl (delete_caught env) s ids_req,
          \<lparr>deletedCount = length (filter snd results), totalRequested = length ids_req,
           failedIds = map fst (filter (\<lambda>r. \<not> snd r) results),
           bd_message = ''Successfully deleted '' @ show_nat (length (filter snd results))
             @ '' out of '' @ show_nat (length ids_req) @ '' keys''\<rparr>))"

section \<open>The zero-balance/delete route\<close>

text \<open>
  Arithmetic on such members.  \<^verbatim>\<open>ToNumber\<close> takes \<^verbatim>\<open>null\<close> to 0 and \<^verbatim>\<open>undefined\<close> to \<^verbatim>\<open>NaN\<close>
  (\<open>None\<close>); a difference with \<^verbatim>\<open>NaN\<close> is \<^verbatim>\<open>NaN\<close>, and no comparison with \<^verbatim>\<open>NaN\<close> holds.
\<close>

definition js_number :: "int JsValue \<Rightarrow> int option" where
  "js_number x = (case x of Undefined \<Rightarrow> None | Null \<Rightarrow> Some 0 | Number n \<Rightarrow> Some n)"

definition js_sub :: "int JsValue \<Rightarrow> int JsValue \<Rightarrow> int option" where
  "js_sub a b = (case (js_number a, js_number b) of (Some x, Some y) \<Rightarrow> Some (x - y) | _ \<Rightarrow> None)"

definition js_le0 :: "int option \<Rightarrow> bool" where
  "js_le0 x = (case x of None \<Rightarrow> False | Some n \<Rightarrow> n \<le> 0)"

text \<open>
  The body of the first loop for one entry.  \<open>Inr\<close> says whether its id is pushed on
  \<^verbatim>\<open>keysToDelete\<close>; \<open>Inl\<close> is an exception (the call rejects, the body is not JSON, or it is
  \<^verbatim>\<open>null\<close>), which is caught and logged, and the id is not pushed.  Neither is it when the
  status is not 2xx.
\<close>

definition check_balance :: "Env \<Rightarrow> ApiKeyEntry \<Rightarrow> string + bool" where
  "check_balance env keyEntry =
     (case remote env (entry_id keyEntry) (entry_key keyEntry) of
        Rejected msg \<Rightarrow> Inl msg
      | Resolved response \<Rightarrow>
          if ok response then
            (case body_json response of
               None \<Rightarrow> Inl ''body is not JSON''
             | Some JsonNull \<Rightarrow> Inl ''Cannot read properties of null''
             | Some (JsonDoc None) \<Rightarrow> Inr False
             | Some (JsonDoc (Some usageInfo)) \<Rightarrow>
                 (case usage_standard usageInfo of
                    None \<Rightarrow> Inr False
                  | Some standardUsage \<Rightarrow>
                      Inr (js_le0 (js_sub (std_totalAllowance standardUsage)
                                     (std_orgTotalTokensUsed standardUsage)))))
          else Inr False)"

definition has_zero_balance :: "Env \<Rightarrow> ApiKeyEntry \<Rightarrow> bool" where
  "has_zero_balance env keyEntry = (check_balance env keyEntry = Inr True)"

record ZeroBalanceBody =
  zb_deletedCount :: nat
  totalZeroBalance :: nat
  zb_message :: string

definition zero_balance_delete :: "Env \<Rightarrow> Store \<Rightarrow> Store \<times> ZeroBalanceBody" where
  "zero_balance_delete env allKeys =
     (let keysToDelete = map entry_id (filter (has_zero_balance env) allKeys)
      in (foldl (delete_caught env) allKeys keysToDelete,
          \<lparr>zb_deletedCount = length (filter (\<lambda>i. \<not> deleteFails env i) keysToDelete),
           totalZeroBalance = length keysToDelete,
           zb_message = ''Successfully deleted ''
             @ show_nat (length (filter (\<lambda>i. \<not> deleteFails env i) keysToDelete))
             @ '' zero balance keys''\<rparr>))"

text \<open>The lines the route writes with \<^verbatim>\<open>console.error\<close>: those of the first loop, then those of the second.\<close>

definition zero_balance_console :: "Env \<Rightarrow> Store \<Rightarrow> string list" where
  "zero_balance_console env allKeys =
     concat (map (\<lambda>keyEntry. case check_balance env keyEntry of
                    Inl msg \<Rightarrow> [''Failed to check balance for key '' @ entry_id keyEntry @ '': '' @ msg]
                  | Inr push \<Rightarrow> []) allKeys)
     @ map (\<lambda>i. ''Failed to delete key '' @ i @ '':'')
         (filter (deleteFails env) (map entry_id (filter (has_zero_balance env) allKeys)))"

section \<open>The remaining routes on the store\<close>

text \<open>The lines the batch-delete route writes with \<^verbatim>\<open>console.error\<close>.\<close>

definition batch_delete_console :: "Env \<Rightarrow> string list \<Rightarrow> string list" where
  "batch_delete_console env ids_req =
     map (\<lambda>i. ''Failed to delete key '' @ i @ '':'') (filter (deleteFails env) ids_req)"

text \<open>
  The console of the route \<^verbatim>\<open>/api/data\<close>: that of \<^verbatim>\<open>getAggregatedData\<close>, and the error it
  throws, which the route prints.
\<close>

definition api_data_console :: "Env \<Rightarrow> ApiKeyEntry list \<Rightarrow> string list" where
  "api_data_console env keyEntries =
     (case getAggregatedData env keyEntries of
        (Inr v, lg) \<Rightarrow> lg
      | (Inl msg, lg) \<Rightarrow> lg @ [msg])"

text \<open>
  The routes on a single key answer \<^verbatim>\<open>{ success: true, ... }\<close> or \<^verbatim>\<open>{ error }\<close>; an exception of
  the store is answered with status 500 and its message.  They write nothing to the
  console.  They read the clock and write the store as turn 0 of the environment.
\<close>

datatype PlainBody = Done | DoneWithId string | DoneWithNote "string option" | Failed string

text \<open>\<^verbatim>\<open>DELETE /api/keys/:id\<close>\<close>

definition delete_key :: "Env \<Rightarrow> string \<Rightarrow> Store \<Rightarrow> Store \<times> nat \<times> PlainBody" where
  "delete_key env i s =
     (if i = [] then (s, 400, Failed ''Key ID required'')
      else if deleteFails env i then (s, 500, Failed ''kv.delete failed'')
      else (deleteApiKey i s, 200, Done))"

text \<open>\<^verbatim>\<open>POST /api/keys\<close> with \<^verbatim>\<open>{ key, name }\<close>; \<^verbatim>\<open>!key\<close> holds of the empty string.\<close>

definition add_key :: "Env \<Rightarrow> string \<Rightarrow> string option \<Rightarrow> Store \<Rightarrow> Store \<times> nat \<times> PlainBody" where
  "add_key env k nm s =
     (if k = [] then (s, 400, Failed ''Key is required'')
      else let i = ''key-'' @ show_nat (idTime env 0) in
        if setFails env 0 then (s, 500, Failed ''kv.set failed'')
        else (saveApiKey (saveTime env 0) i k nm s, 200, DoneWithId i))"

text \<open>
  \<^verbatim>\<open>PUT /api/keys/:id/note\<close> with \<^verbatim>\<open>{ note }\<close>: the entry keeps its other members, and
  \<^verbatim>\<open>note || undefined\<close> drops an empty note.
\<close>

definition update_note :: "Env \<Rightarrow> string \<Rightarrow> string option \<Rightarrow> Store \<Rightarrow> Store \<times> nat \<times> PlainBody" where
  "update_note env i nt s =
     (if i = [] then (s, 400, Failed ''Key ID required'')
      else case getApiKey i s of
             None \<Rightarrow> (s, 404, Failed ''Key not found'')
           | Some keyEntry \<Rightarrow>
               if setFails env 0 then (s, 500, Failed ''kv.set failed'')
               else (kv_set i (keyEntry\<lparr>entry_note := (case nt of None \<Rightarrow> None
                                    | Some n \<Rightarrow> if n = [] then None else Some n)\<rparr>) s,
                     200, DoneWithNote nt))"

text \<open>
  \<^verbatim>\<open>GET /api/keys/:id/usage\<close>: the answer of the remote endpoint handed on, or
  \<^verbatim>\<open>{ error, details }\<close>.
\<close>

datatype UsageBody = UsageData ApiData | UsageError string "string option"

definition usage_route :: "Env \<Rightarrow> string \<Rightarrow> Store \<Rightarrow> nat \<times> UsageBody" where
  "usage_route env i s =
     (if i = [] then (400, UsageError ''Key ID required'' None)
      else case getApiKey i s of
             None \<Rightarrow> (404, UsageError ''Key not found'' None)
           | Some keyEntry \<Rightarrow>
               (case remote env i (entry_key keyEntry) of
                  Rejected msg \<Rightarrow> (500, UsageError msg None)
                | Resolved response \<Rightarrow>
                    if \<not> ok response then
                      (case body_text response of
                         None \<Rightarrow> (500, UsageError ''body unreadable'' None)
                       | Some errorText \<Rightarrow>
                           (status response,
                            UsageError (''Factory.ai API error: '' @ show_nat (status response))
                              (Some errorText)))
                    else
                      (case body_json response of
                         None \<Rightarrow> (500, UsageError ''body is not JSON'' None)
                       | Some usageData \<Rightarrow> (200, UsageData usageData))))"

section \<open>The page script: progressive loading\<close>

text \<open>
  An element of \<^verbatim>\<open>allData.data\<close> in the page script: the placeholder \<^verbatim>\<open>loadData\<close> creates for
  a listed key, or the object a request of \<^verbatim>\<open>loadUsageDataProgressively\<close> returns.
\<close>

record ViewItem =
  item_id :: string
  item_key :: string
  item_note :: "string option"
  loading :: bool
  item_error :: "string option"
  item_startDate :: "string option"
  item_endDate :: "string option"
  item_orgTotalTokensUsed :: "int JsValue"
  item_totalAllowance :: "int JsValue"
  item_usedRatio :: "rat JsValue"

text \<open>
  The headings \<^verbatim>\<open>startDate\<close> and \<^verbatim>\<open>endDate\<close> of a placeholder are the Chinese for ``loading''
  in the source.
\<close>

definition placeholder :: "SafeKey \<Rightarrow> ViewItem" where
  "placeholder k = \<lparr>item_id = safe_id k, item_key = masked k, item_note = safe_note k,
     loading = True, item_error = None, item_startDate = Some ''loading...'',
     item_endDate = Some ''loading...'', item_orgTotalTokensUsed = Number 0,
     item_totalAllowance = Number 0, item_usedRatio = Number 0\<rparr>"

text \<open>
  The environment of the page: the outcome of \<^verbatim>\<open>fetch('/api/keys/' + id + '/usage')\<close>, the
  completion rank of that request among concurrent ones, and the date rendering.
\<close>

record PageEnv =
  usage :: "string \<Rightarrow> FetchOutcome"
  settles :: "string \<Rightarrow> nat"
  pageDate :: "int \<Rightarrow> string"

definition item_failure :: "SafeKey \<Rightarrow> string \<Rightarrow> ViewItem" where
  "item_failure keyEntry e = \<lparr>item_id = safe_id keyEntry, item_key = masked keyEntry,
     item_note = safe_note keyEntry, loading = False, item_error = Some e,
     item_startDate = None, item_endDate = None, item_orgTotalTokensUsed = Undefined,
     item_totalAllowance = Undefined, item_usedRatio = Undefined\<rparr>"

definition pageFormatDate :: "PageEnv \<Rightarrow> int option \<Rightarrow> string" where
  "pageFormatDate env t =
     (case t of
        None \<Rightarrow> ''N/A''
      | Some n \<Rightarrow> if \<bar>n\<bar> \<le> 8640000000000000 then pageDate env n else ''Invalid Date'')"

text \<open>The \<^verbatim>\<open>try\<close> block of the callback mapped over a batch; \<open>Inl\<close> is an exception.\<close>

definition load_item_try :: "PageEnv \<Rightarrow> SafeKey \<Rightarrow> string + ViewItem" where
  "load_item_try env keyEntry =
     (case usage env (safe_id keyEntry) of
        Rejected msg \<Rightarrow> Inl msg
      | Resolved usageResponse \<Rightarrow>
          if \<not> ok usageResponse then
            (case body_json usageResponse of
               None \<Rightarrow> Inl ''body is not JSON''
             | Some errorData \<Rightarrow>
                 Inr (item_failure keyEntry (''HTTP '' @ show_nat (status usageResponse))))
          else
            (case body_json usageResponse of
               None \<Rightarrow> Inl ''body is not JSON''
             | Some JsonNull \<Rightarrow> Inl ''Cannot read properties of null''
             | Some (JsonDoc None) \<Rightarrow> Inr (item_failure keyEntry ''Invalid response'')
             | Some (JsonDoc (Some usageInfo)) \<Rightarrow>
                 (case usage_standard usageInfo of
                    None \<Rightarrow> Inr (item_failure keyEntry ''Invalid response'')
                  | Some standardUsage \<Rightarrow>
                      Inr \<lparr>item_id = safe_id keyEntry, item_key = masked keyEntry,
                           item_note = safe_note keyEntry, loading = False, item_error = None,
                           item_startDate = Some (pageFormatDate env (usage_startDate usageInfo)),
                           item_endDate = Some (pageFormatDate env (usage_endDate usageInfo)),
                           item_orgTotalTokensUsed = std_orgTotalTokensUsed standardUsage,
                           item_totalAllowance = std_totalAllowance standardUsage,
                           item_usedRatio = std_usedRatio standardUsage\<rparr>)))"

text \<open>With the \<^verbatim>\<open>catch\<close> clause: \<^verbatim>\<open>error: error.message || 'Failed to fetch'\<close>.\<close>

definition load_item :: "PageEnv \<Rightarrow> SafeKey \<Rightarrow> ViewItem" where
  "load_item env keyEntry =
     (case load_item_try env keyEntry of
        Inr item \<Rightarrow> item
      | Inl msg \<Rightarrow> item_failure keyEntry (if msg = [] then ''Failed to fetch'' else msg))"

text \<open>
  What the network and the screen see.  \<^verbatim>\<open>Promise.all(xs.map(async ...))\<close> runs every
  callback up to its first \<^verbatim>\<open>await\<close>, which is the \<^verbatim>\<open>fetch\<close>: all requests are sent, in list
  order, before any settles; the requests settle in the order of their ranks; and the
  \<^verbatim>\<open>await\<close> of the \<^verbatim>\<open>Promise.all\<close> continues when all have settled.
\<close>

datatype Event = Dispatch string | Settle string | Display "ViewItem list"

definition promise_all_events :: "(string \<Rightarrow> nat) \<Rightarrow> string list \<Rightarrow> Event list" where
  "promise_all_events rk is = map Dispatch is @ map Settle (sort_key rk is)"

text \<open>The number of requests in flight after each event of a trace, from \<open>n\<close> before it.\<close>

fun in_flight :: "nat \<Rightarrow> Event list \<Rightarrow> nat list" where
  "in_flight n [] = []"
| "in_flight n (Dispatch i # es) = (n + 1) # in_flight (n + 1) es"
| "in_flight n (Settle i # es) = (n - 1) # in_flight (n - 1) es"
| "in_flight n (Display d # es) = n # in_flight n es"

text \<open>The number of requests in flight at the end of a trace, from \<open>n\<close> before it.\<close>

fun pending :: "nat \<Rightarrow> Event list \<Rightarrow> nat" where
  "pending n [] = n"
| "pending n (Dispatch i # es) = pending (n + 1) es"
| "pending n (Settle i # es) = pending (n - 1) es"
| "pending n (Display d # es) = pending n es"

text \<open>The number of requests in flight at each \<^verbatim>\<open>displayData\<close> of a trace.\<close>

fun in_flight_at_display :: "nat \<Rightarrow> Event list \<Rightarrow> nat list" where
  "in_flight_at_display n [] = []"
| "in_flight_at_display n (Dispatch i # es) = in_flight_at_display (n + 1) es"
| "in_flight_at_display n (Settle i # es) = in_flight_at_display (n - 1) es"
| "in_flight_at_display n (Display d # es) = n # in_flight_at_display n es"

text \<open>The requests of \<^verbatim>\<open>getAggregatedData\<close>: one \<^verbatim>\<open>Promise.all\<close> over all entries.\<close>

definition getAggregatedData_events :: "Env \<Rightarrow> ApiKeyEntry list \<Rightarrow> Event list" where
  "getAggregatedData_events env keyEntries =
     (if length keyEntries = 0 then []
      else promise_all_events (rank env) (map entry_id keyEntries))"

text \<open>\<^verbatim>\<open>const concurrency = 5\<close>\<close>

definition concurrency :: nat where
  "concurrency = 5"

text \<open>
  A trace is quiet when nothing is in flight at its end, at most \<open>concurrency\<close> requests
  are in flight after any of its events, and nothing is in flight at any of its displays.
\<close>

definition quiet :: "Event list \<Rightarrow> bool" where
  "quiet es \<longleftrightarrow> pending 0 es = 0
     \<and> (\<forall>c\<in>set (in_flight 0 es). c \<le> concurrency)
     \<and> (\<forall>c\<in>set (in_flight_at_display 0 es). c = 0)"

text \<open>\<^verbatim>\<open>findIndex\<close>, with \<open>None\<close> for \<^verbatim>\<open>-1\<close>, and the callback of \<^verbatim>\<open>batchResults.forEach\<close>.\<close>

fun findIndex :: "('a \<Rightarrow> bool) \<Rightarrow> 'a list \<Rightarrow> nat option" where
  "findIndex P [] = None"
| "findIndex P (x # xs) = (if P x then Some 0 else map_option Suc (findIndex P xs))"

definition put_result :: "ViewItem list \<Rightarrow> ViewItem \<Rightarrow> ViewItem list" where
  "put_result d result =
     (case findIndex (\<lambda>item. item_id item = item_id result) d of
        None \<Rightarrow> d
      | Some index \<Rightarrow> d[index := result])"

definition item_has_error :: "ViewItem \<Rightarrow> bool" where
  "item_has_error r = (case item_error r of None \<Rightarrow> False | Some e \<Rightarrow> e \<noteq> [])"

definition page_totals :: "ViewItem list \<Rightarrow> Totals" where
  "page_totals d =
     (let validResults = filter (\<lambda>r. \<not> item_has_error r \<and> \<not> loading r) d
      in \<lparr>total_orgTotalTokensUsed = foldl (\<lambda>sum r. sum + or0 (item_orgTotalTokensUsed r)) 0 validResults,
          total_totalAllowance = foldl (\<lambda>sum r. sum + or0 (item_totalAllowance r)) 0 validResults\<rparr>)"

record LoaderState =
  allData_data :: "ViewItem list"
  allData_totals :: Totals
  results :: "ViewItem list"
  completedCount :: nat
  events :: "Event list"

text \<open>The \<^verbatim>\<open>for\<close> loop of \<^verbatim>\<open>loadUsageDataProgressively\<close>, from index \<open>i\<close>.\<close>

function load_batches :: "PageEnv \<Rightarrow> SafeKey list \<Rightarrow> nat \<Rightarrow> LoaderState \<Rightarrow> LoaderState" where
  "load_batches env keys i st =
     (if i < length keys then
        let batch = take concurrency (drop i keys);
            batchResults = map (load_item env) batch;
            d = foldl put_result (allData_data st) batchResults
        in load_batches env keys (i + concurrency)
             \<lparr>allData_data = d, allData_totals = page_totals d,
              results = results st @ batchResults,
              completedCount = completedCount st + length batchResults,
              events = events st @ promise_all_events (settles env) (map safe_id batch)
                         @ [Display d]\<rparr>
      else st)"
  by pat_completeness auto
termination
  by (relation "measure (\<lambda>(env, keys, i, st). length keys - i)") (auto simp: concurrency_def)

declare load_batches.simps [simp del]

text \<open>
  \<^verbatim>\<open>loadData\<close> once the key list has arrived: it shows the placeholders and then loads the
  usage of the listed keys.
\<close>

definition loadData :: "PageEnv \<Rightarrow> SafeKey list \<Rightarrow> LoaderState" where
  "loadData env keys =
     (let d = map placeholder keys
      in load_batches env keys 0
           \<lparr>allData_data = d,
            allData_totals = \<lparr>total_orgTotalTokensUsed = 0, total_totalAllowance = 0\<rparr>,
            results = [], completedCount = 0, events = [Display d]\<rparr>)"

section \<open>The page script: clearing invalid keys\<close>

text \<open>
  \<^verbatim>\<open>clearInvalidKeysFromModal\<close>: the ids it sends to \<^verbatim>\<open>/api/keys/batch-delete\<close>, if it sends a
  request at all (there is data, some key is invalid, and the user confirms).
\<close>

definition failedKeys :: "ViewItem list \<Rightarrow> ViewItem list" where
  "failedKeys d = filter item_has_error d"

definition zeroBalanceKeys :: "ViewItem list \<Rightarrow> ViewItem list" where
  "zeroBalanceKeys d =
     filter (\<lambda>item. \<not> item_has_error item
               \<and> js_le0 (js_sub (item_totalAllowance item) (item_orgTotalTokensUsed item))) d"

definition clearInvalidKeysFromModal :: "bool \<Rightarrow> ViewItem list option \<Rightarrow> string list option" where
  "clearInvalidKeysFromModal confirmed allData =
     (case allData of
        None \<Rightarrow> None
      | Some d \<Rightarrow>
          let allInvalidKeys = failedKeys d @ zeroBalanceKeys d
          in if length allInvalidKeys = 0 then None
             else if \<not> confirmed then None
             else Some (map item_id allInvalidKeys))"

text \<open>The store after the click, the request being served by the batch-delete route.\<close>

definition clear_invalid :: "Env \<Rightarrow> bool \<Rightarrow> ViewItem list option \<Rightarrow> Store \<Rightarrow> Store" where
  "clear_invalid env confirmed allData s =
     (case clearInvalidKeysFromModal confirmed allData of
        None \<Rightarrow> s
      | Some ids_req \<Rightarrow> fst (batch_delete env ids_req s))"

section \<open>Scenarios\<close>

text \<open>
  Concrete stores and environments on which the theorems below are instantiated.  The
  first is the scenario of three credentials: A with allowance 1000 and 400 used, B with
  allowance 500 and 500 used, C answered with HTTP 401.
\<close>

definition usageA :: ApiData where
  "usageA = JsonDoc (Some \<lparr>usage_startDate = Some 1700000000000, usage_endDate = Some 1702592000000,
     usage_standard = Some \<lparr>std_orgTotalTokensUsed = Number 400, std_totalAllowance = Number 1000,
       std_usedRatio = Number (2 / 5)\<rparr>\<rparr>)"

definition usageB :: ApiData where
  "usageB = JsonDoc (Some \<lparr>usage_startDate = Some 1700000000000, usage_endDate = None,
     usage_standard = Some \<lparr>std_orgTotalTokensUsed = Number 500, std_totalAllowance = Number 500,
       std_usedRatio = Number 1\<rparr>\<rparr>)"

definition scenario_remote :: "string \<Rightarrow> string \<Rightarrow> FetchOutcome" where
  "scenario_remote i k =
     (if k = ''sk-live-AAAA-0001'' then
        Resolved \<lparr>status = 200, body_text = Some ''{...}'', body_json = Some usageA\<rparr>
      else if k = ''sk-live-BBBB-0002'' then
        Resolved \<lparr>status = 200, body_text = Some ''{...}'', body_json = Some usageB\<rparr>
      else if k = ''sk-live-CCCC-0003'' then
        Resolved \<lparr>status = 401, body_text = Some ''Unauthorized'', body_json = None\<rparr>
      else if k = ''sk-live-DDDD-0004'' then
        Resolved \<lparr>status = 200, body_text = Some ''null'', body_json = Some JsonNull\<rparr>
      else if k = ''sk-live-EEEE-0005'' then
        Resolved \<lparr>status = 200, body_text = Some ''{}'', body_json = Some (JsonDoc None)\<rparr>
      else if k = ''sk-live-FFFF-0006'' then
        Resolved \<lparr>status = 502, body_text = None, body_json = None\<rparr>
      else Rejected ''network unreachable'')"

definition scenario_env :: Env where
  "scenario_env = \<lparr>remote = scenario_remote, rank = (\<lambda>i. 0), isoDate = (\<lambda>t. ''2023-11-14''),
     nowFormatted = ''2026-01-01 08:00:00'', deleteFails = (\<lambda>i. False), listFails = (\<lambda>n. False),
     setFails = (\<lambda>n. False), idTime = (\<lambda>n. 1700000000000), saveTime = (\<lambda>n. 1700000000000)\<rparr>"

definition entryA :: ApiKeyEntry where
  "entryA = \<lparr>entry_id = ''key-1-0'', entry_key = ''sk-live-AAAA-0001'',
     entry_name = Some ''Key key-1-0'', entry_note = None, createdAt = 1\<rparr>"

definition entryB :: ApiKeyEntry where
  "entryB = \<lparr>entry_id = ''key-1-1'', entry_key = ''sk-live-BBBB-0002'',
     entry_name = Some ''Key key-1-1'', entry_note = None, createdAt = 1\<rparr>"

definition entryC :: ApiKeyEntry where
  "entryC = \<lparr>entry_id = ''key-1-2'', entry_key = ''sk-live-CCCC-0003'',
     entry_name = Some ''Key key-1-2'', entry_note = None, createdAt = 1\<rparr>"

text \<open>
  The scenario of duplicates: D, E and F share one secret and were created in this order;
  A has a secret of its own.  In \<open>failing_env\<close> the deletion of E throws.
\<close>

definition entryD :: ApiKeyEntry where
  "entryD = \<lparr>entry_id = ''key-1700000000001'', entry_key = ''sk-live-DUPL-0009'',
     entry_name = Some ''first'', entry_note = None, createdAt = 1700000000001\<rparr>"

definition entryE :: ApiKeyEntry where
  "entryE = \<lparr>entry_id = ''key-1700000000002'', entry_key = ''sk-live-DUPL-0009'',
     entry_name = Some ''second'', entry_note = None, createdAt = 1700000000002\<rparr>"

definition entryF :: ApiKeyEntry where
  "entryF = \<lparr>entry_id = ''key-1700000000003'', entry_key = ''sk-live-DUPL-0009'',
     entry_name = Some ''third'', entry_note = None, createdAt = 1700000000003\<rparr>"

definition dup_store :: Store where
  "dup_store = [entryA, entryD, entryE, entryF]"

definition failing_env :: Env where
  "failing_env = scenario_env\<lparr>deleteFails := (\<lambda>i. i = ''key-1700000000002'')\<rparr>"

lemmas dup_defs = dup_store_def entryA_def entryD_def entryE_def entryF_def

text \<open>
  The import scenarios: three lines of which two are blank, into the empty store; and six
  lines into the store holding A, in an environment where the write of line 5 throws.
\<close>

definition import_env :: Env where
  "import_env = scenario_env\<lparr>setFails := (\<lambda>i. i = 5)\<rparr>"

definition import_lines :: "string list" where
  "import_lines = ['''', ''  '', '' sk-live-AAAA-0001 '', ''sk-new-1'', ''sk-new-1'', ''sk-fail'']"

text \<open>
  The view the page holds of A, B and C once their usage has loaded, and a page with seven
  listed keys whose requests settle out of order.
\<close>

definition safeKey :: "string \<Rightarrow> SafeKey" where
  "safeKey i = \<lparr>safe_id = i, safe_name = None, safe_note = None, safe_createdAt = 1,
     masked = ''sk-l...'' @ i\<rparr>"

definition page_env :: PageEnv where
  "page_env = \<lparr>usage = (\<lambda>i.
       if i = ''key-1-0'' then
         Resolved \<lparr>status = 200, body_text = Some ''{...}'', body_json = Some usageA\<rparr>
       else if i = ''key-1-1'' then
         Resolved \<lparr>status = 200, body_text = Some ''{...}'', body_json = Some usageB\<rparr>
       else if i = ''key-1-2'' then
         Resolved \<lparr>status = 401, body_text = Some ''{...}'', body_json = Some (JsonDoc None)\<rparr>
       else Rejected ''Failed to fetch''),
     settles = (\<lambda>i. if i = ''key-1-0'' then 2 else 1),
     pageDate = (\<lambda>t. ''2023-11-14'')\<rparr>"

definition scenario_view :: "ViewItem list" where
  "scenario_view = map (load_item page_env) (map safeKey [''key-1-0'', ''key-1-1'', ''key-1-2''])"

definition seven_keys :: "SafeKey list" where
  "seven_keys = map safeKey [''key-1-0'', ''key-1-1'', ''key-1-2'', ''key-1-3'', ''key-1-4'',
     ''key-1-5'', ''key-1-6'']"

definition six_entries :: "ApiKeyEntry list" where
  "six_entries = map (\<lambda>i. \<lparr>entry_id = i, entry_key = ''sk-live-'' @ i, entry_name = None,
       entry_note = None, createdAt = 1\<rparr>)
     [''key-1-0'', ''key-1-1'', ''key-1-2'', ''key-1-3'', ''key-1-4'', ''key-1-5'']"

text \<open>An environment in which every credential is answered 200 with \<^verbatim>\<open>null\<close> numbers.\<close>

definition null_env :: Env where
  "null_env = scenario_env\<lparr>remote := (\<lambda>i k.
     Resolved \<lparr>status = 200, body_text = Some ''{...}'',
       body_json = Some (JsonDoc (Some \<lparr>usage_startDate = None, usage_endDate = None,
         usage_standard = Some \<lparr>std_orgTotalTokensUsed = Null, std_totalAllowance = Null,
           std_usedRatio = Null\<rparr>\<rparr>))\<rparr>)\<rparr>"

text \<open>
  The scenario of a race: a secret is imported at clock reading 1700000000000, and within
  the same millisecond it is added once more through \<^verbatim>\<open>POST /api/keys\<close>, whose id is made at
  that reading and whose \<^verbatim>\<open>createdAt\<close> is read one millisecond later.
\<close>

definition race_store :: Store where
  "race_store =
     fst (add_key (scenario_env\<lparr>saveTime := (\<lambda>n. 1700000000001)\<rparr>) ''sk-live-RACE-0001'' None
            (fst (batchImportKeys scenario_env [''sk-live-RACE-0001''] [])))"

lemmas scenario_defs = scenario_env_def scenario_remote_def usageA_def usageB_def
  entryA_def entryB_def entryC_def

lemmas fetch_defs = fetchApiKeyData_def fetchApiKeyData_try_def failure_def ok_def formatDate_def
  maskedKey_def prefixKey_def show_nat.simps digit_char_def

section \<open>Aggregation: totals and the empty store\<close>

lemma has_error_fetch:
  "has_error (fst (fetchApiKeyData env i k)) = (error (fst (fetchApiKeyData env i k)) \<noteq> None)"
  by (auto simp: fetchApiKeyData_def fetchApiKeyData_try_def failure_def has_error_def
      split: FetchOutcome.splits option.splits ApiData.splits sum.splits if_splits)

lemma res_id_fetch: "res_id (fst (fetchApiKeyData env i k)) = i"
  by (simp add: fetchApiKeyData_def fetchApiKeyData_try_def failure_def
      split: FetchOutcome.splits option.splits ApiData.splits sum.splits)

lemma foldl_add_result:
  "foldl add_result acc rs =
     \<lparr>total_orgTotalTokensUsed = total_orgTotalTokensUsed acc + (\<Sum>r\<leftarrow>rs. or0 (orgTotalTokensUsed r)),
      total_totalAllowance = total_totalAllowance acc + (\<Sum>r\<leftarrow>rs. or0 (totalAllowance r))\<rparr>"
  by (induction rs arbitrary: acc) (simp_all add: add_result_def add.assoc)

lemma scenario_results:
  "map (\<lambda>entry. fst (fetchApiKeyData scenario_env (entry_id entry) (entry_key entry)))
     [entryA, entryB, entryC]
   = [\<lparr>res_id = ''key-1-0'', res_key = ''sk-l...0001'', error = None,
        startDate = Some ''2023-11-14'', endDate = Some ''2023-11-14'',
        orgTotalTokensUsed = Number 400, totalAllowance = Number 1000, usedRatio = Number (2 / 5)\<rparr>,
      \<lparr>res_id = ''key-1-1'', res_key = ''sk-l...0002'', error = None,
        startDate = Some ''2023-11-14'', endDate = Some ''N/A'',
        orgTotalTokensUsed = Number 500, totalAllowance = Number 500, usedRatio = Number 1\<rparr>,
      \<lparr>res_id = ''key-1-2'', res_key = ''sk-l...'', error = Some ''HTTP 401'',
        startDate = None, endDate = None,
        orgTotalTokensUsed = Undefined, totalAllowance = Undefined, usedRatio = Undefined\<rparr>]"
  by (simp add: scenario_defs fetch_defs)

text \<open>
  Claim C7.  \<^verbatim>\<open>getAggregatedData\<close> on an empty credential set throws the error ``No API keys
  found in storage. Please import keys first.'', which the route \<^verbatim>\<open>/api/data\<close> hands to the
  caller as a response of status 500 with that message instead of a view; on every
  non-empty credential set it returns a view and the route answers 200 with it.
\<close>

theorem getAggregatedData_no_keys:
  "(keyEntries = [] \<longrightarrow>
      fst (getAggregatedData env keyEntries)
        = Inl ''No API keys found in storage. Please import keys first.''
      \<and> api_data env keyEntries
        = (500, ErrorBody ''No API keys found in storage. Please import keys first.''))
   \<and> (keyEntries \<noteq> [] \<longrightarrow>
      (\<exists>v. fst (getAggregatedData env keyEntries) = Inr v
           \<and> api_data env keyEntries = (200, ViewBody v)))"
  by (simp add: getAggregatedData_def api_data_def Let_def)

theorem getAggregatedData_no_keys_witness:
  "fst (getAggregatedData scenario_env [])
     = Inl ''No API keys found in storage. Please import keys first.''
   \<and> fst (api_data scenario_env []) = 500
   \<and> (\<exists>v. fst (getAggregatedData scenario_env [entryA, entryB, entryC]) = Inr v
          \<and> api_data scenario_env [entryA, entryB, entryC] = (200, ViewBody v))"
  using getAggregatedData_no_keys [of "[]" scenario_env]
    getAggregatedData_no_keys [of "[entryA, entryB, entryC]" scenario_env]
  by simp

text \<open>
  Claim C1.  For every aggregation over a non-empty credential set, the totals of the view
  are the sum of \<^verbatim>\<open>totalAllowance\<close> and the sum of \<^verbatim>\<open>orgTotalTokensUsed\<close> over exactly the
  snapshots without an error tag (an absent number counting as 0, as \<^verbatim>\<open>|| 0\<close> makes it);
  a snapshot with an error tag adds 0 to both sums and is still listed: the data sequence
  has one snapshot per credential, in the order of the credentials.
\<close>

theorem getAggregatedData_totals:
  assumes "keyEntries \<noteq> []"
  shows "\<exists>v. fst (getAggregatedData env keyEntries) = Inr v
     \<and> total_totalAllowance (totals v)
         = (\<Sum>r\<leftarrow>filter (\<lambda>r. error r = None) (data v). or0 (totalAllowance r))
     \<and> total_orgTotalTokensUsed (totals v)
         = (\<Sum>r\<leftarrow>filter (\<lambda>r. error r = None) (data v). or0 (orgTotalTokensUsed r))
     \<and> total_totalAllowance (totals v)
         = (\<Sum>r\<leftarrow>data v. if error r \<noteq> None then 0 else or0 (totalAllowance r))
     \<and> total_orgTotalTokensUsed (totals v)
         = (\<Sum>r\<leftarrow>data v. if error r \<noteq> None then 0 else or0 (orgTotalTokensUsed r))
     \<and> map res_id (data v) = map entry_id keyEntries
     \<and> total_count v = length keyEntries"
proof -
  define results where
    "results = map (\<lambda>entry. fst (fetchApiKeyData env (entry_id entry) (entry_key entry))) keyEntries"
  define v where
    "v = \<lparr>update_time = nowFormatted env, total_count = length keyEntries,
          totals = foldl add_result \<lparr>total_orgTotalTokensUsed = 0, total_totalAllowance = 0\<rparr>
                     (filter (\<lambda>r. \<not> has_error r) results),
          data = results\<rparr>"
  have run: "fst (getAggregatedData env keyEntries) = Inr v"
    using assms by (simp add: getAggregatedData_def Let_def v_def results_def comp_def)
  have tagged: "\<And>r. r \<in> set results \<Longrightarrow> has_error r = (error r \<noteq> None)"
    unfolding results_def using has_error_fetch by auto
  have valid: "filter (\<lambda>r. \<not> has_error r) results = filter (\<lambda>r. error r = None) results"
    by (rule filter_cong) (simp_all add: tagged)
  have ids: "map res_id results = map entry_id keyEntries"
    unfolding results_def by (simp add: comp_def res_id_fetch)
  have allow: "total_totalAllowance (totals v)
      = (\<Sum>r\<leftarrow>filter (\<lambda>r. error r = None) results. or0 (totalAllowance r))"
    by (simp add: v_def foldl_add_result valid)
  have used: "total_orgTotalTokensUsed (totals v)
      = (\<Sum>r\<leftarrow>filter (\<lambda>r. error r = None) results. or0 (orgTotalTokensUsed r))"
    by (simp add: v_def foldl_add_result valid)
  have zero: "\<And>f. (\<Sum>r\<leftarrow>filter (\<lambda>r. error r = None) results. f r)
      = (\<Sum>r\<leftarrow>results. if error r \<noteq> None then 0 else (f r :: int))"
    by (induction results) simp_all
  have dv: "data v = results" and cv: "total_count v = length keyEntries"
    by (simp_all add: v_def)
  show ?thesis
    using run allow used ids zero [of "\<lambda>r. or0 (totalAllowance r)"]
      zero [of "\<lambda>r. or0 (orgTotalTokensUsed r)"] dv cv
    by (intro exI [of _ v]) simp
qed

theorem getAggregatedData_totals_witness:
  "\<exists>v. fst (getAggregatedData scenario_env [entryA, entryB, entryC]) = Inr v
     \<and> total_totalAllowance (totals v) = 1500 \<and> total_orgTotalTokensUsed (totals v) = 900
     \<and> map res_id (data v) = [''key-1-0'', ''key-1-1'', ''key-1-2'']
     \<and> map error (data v) = [None, None, Some ''HTTP 401'']"
proof -
  have ne: "[entryA, entryB, entryC] \<noteq> []" by simp
  from getAggregatedData_totals [OF ne, of scenario_env] obtain v where
    v: "fst (getAggregatedData scenario_env [entryA, entryB, entryC]) = Inr v"
      "total_totalAllowance (totals v)
         = (\<Sum>r\<leftarrow>filter (\<lambda>r. error r = None) (data v). or0 (totalAllowance r))"
      "total_orgTotalTokensUsed (totals v)
         = (\<Sum>r\<leftarrow>filter (\<lambda>r. error r = None) (data v). or0 (orgTotalTokensUsed r))"
    by blast
  have "Inr v = fst (getAggregatedData scenario_env [entryA, entryB, entryC])"
    using v(1) by simp
  then have "data v
      = map (\<lambda>entry. fst (fetchApiKeyData scenario_env (entry_id entry) (entry_key entry)))
          [entryA, entryB, entryC]"
    by (simp add: getAggregatedData_def Let_def)
  then have dv: "data v = [\<lparr>res_id = ''key-1-0'', res_key = ''sk-l...0001'', error = None,
        startDate = Some ''2023-11-14'', endDate = Some ''2023-11-14'',
        orgTotalTokensUsed = Number 400, totalAllowance = Number 1000, usedRatio = Number (2 / 5)\<rparr>,
      \<lparr>res_id = ''key-1-1'', res_key = ''sk-l...0002'', error = None,
        startDate = Some ''2023-11-14'', endDate = Some ''N/A'',
        orgTotalTokensUsed = Number 500, totalAllowance = Number 500, usedRatio = Number 1\<rparr>,
      \<lparr>res_id = ''key-1-2'', res_key = ''sk-l...'', error = Some ''HTTP 401'',
        startDate = None, endDate = None,
        orgTotalTokensUsed = Undefined, totalAllowance = Undefined, usedRatio = Undefined\<rparr>]"
    by (simp only: scenario_results)
  show ?thesis
    using v by (intro exI [of _ v]) (simp add: dv or0_def)
qed

section \<open>fetchApiKeyData: masking and classification\<close>

text \<open>
  Claim C9, as the code has it.  On the success return of \<^verbatim>\<open>fetchApiKeyData\<close> the masked
  secret is the first 4 characters of the secret, three dots and its last 4 characters.
  On every error return (a status that is not 2xx, a 2xx body without the
  \<^verbatim>\<open>usage\<close>/\<^verbatim>\<open>standard\<close> structure, an exception) it is the first 4 characters and three dots,
  without the last 4 characters.
\<close>

theorem fetchApiKeyData_masking:
  "(error (fst (fetchApiKeyData env i k)) = None
      \<longrightarrow> res_key (fst (fetchApiKeyData env i k)) = maskedKey k)
   \<and> (error (fst (fetchApiKeyData env i k)) \<noteq> None
      \<longrightarrow> res_key (fst (fetchApiKeyData env i k)) = prefixKey k)
   \<and> (remote env i k = Resolved r \<and> ok r \<and> body_json r = Some (JsonDoc (Some u))
        \<and> usage_standard u = Some su
      \<longrightarrow> res_key (fst (fetchApiKeyData env i k)) = maskedKey k)
   \<and> (remote env i k = Resolved r \<and> \<not> ok r
      \<longrightarrow> res_key (fst (fetchApiKeyData env i k)) = prefixKey k)
   \<and> (remote env i k = Resolved r \<and> ok r
        \<and> (body_json r = Some (JsonDoc None)
            \<or> body_json r = Some (JsonDoc (Some u)) \<and> usage_standard u = None)
      \<longrightarrow> res_key (fst (fetchApiKeyData env i k)) = prefixKey k)
   \<and> (remote env i k = Rejected m
      \<longrightarrow> res_key (fst (fetchApiKeyData env i k)) = prefixKey k)"
  by (auto simp: fetchApiKeyData_def fetchApiKeyData_try_def failure_def
      split: FetchOutcome.splits option.splits ApiData.splits sum.splits)

theorem fetchApiKeyData_masking_witness:
  "res_key (fst (fetchApiKeyData scenario_env ''key-1-0'' ''sk-live-AAAA-0001'')) = ''sk-l...0001''
   \<and> res_key (fst (fetchApiKeyData scenario_env ''key-1-2'' ''sk-live-CCCC-0003'')) = ''sk-l...''
   \<and> res_key (fst (fetchApiKeyData scenario_env ''key-1-4'' ''sk-live-EEEE-0005'')) = ''sk-l...''
   \<and> res_key (fst (fetchApiKeyData scenario_env ''key-1-6'' ''sk-live-GGGG-0007'')) = ''sk-l...''"
proof -
  have a: "remote scenario_env ''key-1-0'' ''sk-live-AAAA-0001''
        = Resolved \<lparr>status = 200, body_text = Some ''{...}'', body_json = Some usageA\<rparr>"
    and c: "remote scenario_env ''key-1-2'' ''sk-live-CCCC-0003''
        = Resolved \<lparr>status = 401, body_text = Some ''Unauthorized'', body_json = None\<rparr>"
    and e: "remote scenario_env ''key-1-4'' ''sk-live-EEEE-0005''
        = Resolved \<lparr>status = 200, body_text = Some ''{}'', body_json = Some (JsonDoc None)\<rparr>"
    and g: "remote scenario_env ''key-1-6'' ''sk-live-GGGG-0007'' = Rejected ''network unreachable''"
    by (simp_all add: scenario_defs)
  show ?thesis
    using
      fetchApiKeyData_masking [where env = scenario_env and i = "''key-1-0''"
        and k = "''sk-live-AAAA-0001''"
        and r = "\<lparr>status = 200, body_text = Some ''{...}'', body_json = Some usageA\<rparr>"
        and u = "\<lparr>usage_startDate = Some 1700000000000, usage_endDate = Some 1702592000000,
          usage_standard = Some \<lparr>std_orgTotalTokensUsed = Number 400, std_totalAllowance = Number 1000,
            std_usedRatio = Number (2 / 5)\<rparr>\<rparr>"
        and su = "\<lparr>std_orgTotalTokensUsed = Number 400, std_totalAllowance = Number 1000,
            std_usedRatio = Number (2 / 5)\<rparr>"]
      fetchApiKeyData_masking [where env = scenario_env and i = "''key-1-2''"
        and k = "''sk-live-CCCC-0003''"
        and r = "\<lparr>status = 401, body_text = Some ''Unauthorized'', body_json = None\<rparr>"]
      fetchApiKeyData_masking [where env = scenario_env and i = "''key-1-4''"
        and k = "''sk-live-EEEE-0005''"
        and r = "\<lparr>status = 200, body_text = Some ''{}'', body_json = Some (JsonDoc None)\<rparr>"]
      fetchApiKeyData_masking [where env = scenario_env and i = "''key-1-6''"
        and k = "''sk-live-GGGG-0007''" and m = "''network unreachable''"]
    by (simp add: a c e g ok_def usageA_def maskedKey_def prefixKey_def)
qed

text \<open>
  Claim C9 as stated fails on an error return: for a credential answered with HTTP 401 the
  returned key is \<^verbatim>\<open>sk-l...\<close>, not first 4, dots, last 4.
\<close>

theorem error_path_mask_counterexample:
  "remote scenario_env ''key-1-2'' ''sk-live-CCCC-0003''
     = Resolved \<lparr>status = 401, body_text = Some ''Unauthorized'', body_json = None\<rparr>
   \<and> res_key (fst (fetchApiKeyData scenario_env ''key-1-2'' ''sk-live-CCCC-0003'')) = ''sk-l...''
   \<and> res_key (fst (fetchApiKeyData scenario_env ''key-1-2'' ''sk-live-CCCC-0003''))
       \<noteq> take 4 ''sk-live-CCCC-0003'' @ ''...''
           @ drop (length ''sk-live-CCCC-0003'' - 4) ''sk-live-CCCC-0003''"
  by (simp add: scenario_defs fetch_defs)

text \<open>
  Claim C2, as the code has it.  \<^verbatim>\<open>fetchApiKeyData\<close> never throws: every exception inside
  its \<^verbatim>\<open>try\<close> block is caught and gives a result tagged \<^verbatim>\<open>Failed to fetch\<close>.  The error is
  \<^verbatim>\<open>HTTP\<close> followed by the status when the status is not 2xx and the body can be read; it
  is \<^verbatim>\<open>Invalid API response structure\<close> when a 2xx body is a JSON value other than \<^verbatim>\<open>null\<close>
  without a truthy \<^verbatim>\<open>usage\<close> or \<^verbatim>\<open>usage.standard\<close>; it is \<^verbatim>\<open>Failed to fetch\<close> when the call
  rejects, when the body cannot be read or is not JSON, and when a 2xx body is JSON
  \<^verbatim>\<open>null\<close>; otherwise there is no error.  The three error strings are mutually distinct.
\<close>

theorem fetchApiKeyData_classification:
  "(fetchApiKeyData_try env i k = Inl m
      \<longrightarrow> fst (fetchApiKeyData env i k) = failure i k ''Failed to fetch'')
   \<and> (remote env i k = Rejected m
      \<longrightarrow> error (fst (fetchApiKeyData env i k)) = Some ''Failed to fetch'')
   \<and> (remote env i k = Resolved r \<and> \<not> ok r \<and> body_text r = Some b
      \<longrightarrow> error (fst (fetchApiKeyData env i k)) = Some (''HTTP '' @ show_nat (status r)))
   \<and> (remote env i k = Resolved r \<and> \<not> ok r \<and> body_text r = None
      \<longrightarrow> error (fst (fetchApiKeyData env i k)) = Some ''Failed to fetch'')
   \<and> (remote env i k = Resolved r \<and> ok r
        \<and> (body_json r = None \<or> body_json r = Some JsonNull)
      \<longrightarrow> error (fst (fetchApiKeyData env i k)) = Some ''Failed to fetch'')
   \<and> (remote env i k = Resolved r \<and> ok r
        \<and> (body_json r = Some (JsonDoc None)
            \<or> body_json r = Some (JsonDoc (Some u)) \<and> usage_standard u = None)
      \<longrightarrow> error (fst (fetchApiKeyData env i k)) = Some ''Invalid API response structure'')
   \<and> (remote env i k = Resolved r \<and> ok r \<and> body_json r = Some (JsonDoc (Some u))
        \<and> usage_standard u = Some su
      \<longrightarrow> error (fst (fetchApiKeyData env i k)) = None)
   \<and> ''HTTP '' @ show_nat n \<noteq> ''Invalid API response structure''
   \<and> ''HTTP '' @ show_nat n \<noteq> ''Failed to fetch''
   \<and> ''Invalid API response structure'' \<noteq> ''Failed to fetch''"
  by (auto simp: fetchApiKeyData_def fetchApiKeyData_try_def failure_def
      split: FetchOutcome.splits option.splits ApiData.splits sum.splits)

theorem fetchApiKeyData_classification_witness:
  "error (fst (fetchApiKeyData scenario_env ''key-1-0'' ''sk-live-AAAA-0001'')) = None
   \<and> error (fst (fetchApiKeyData scenario_env ''key-1-2'' ''sk-live-CCCC-0003'')) = Some ''HTTP 401''
   \<and> error (fst (fetchApiKeyData scenario_env ''key-1-3'' ''sk-live-DDDD-0004'')) = Some ''Failed to fetch''
   \<and> error (fst (fetchApiKeyData scenario_env ''key-1-4'' ''sk-live-EEEE-0005''))
       = Some ''Invalid API response structure''
   \<and> error (fst (fetchApiKeyData scenario_env ''key-1-5'' ''sk-live-FFFF-0006'')) = Some ''Failed to fetch''
   \<and> error (fst (fetchApiKeyData scenario_env ''key-1-6'' ''sk-live-GGGG-0007'')) = Some ''Failed to fetch''
   \<and> fst (fetchApiKeyData scenario_env ''key-1-6'' ''sk-live-GGGG-0007'')
       = failure ''key-1-6'' ''sk-live-GGGG-0007'' ''Failed to fetch''"
proof -
  have a: "remote scenario_env ''key-1-0'' ''sk-live-AAAA-0001''
        = Resolved \<lparr>status = 200, body_text = Some ''{...}'', body_json = Some usageA\<rparr>"
    and c: "remote scenario_env ''key-1-2'' ''sk-live-CCCC-0003''
        = Resolved \<lparr>status = 401, body_text = Some ''Unauthorized'', body_json = None\<rparr>"
    and d: "remote scenario_env ''key-1-3'' ''sk-live-DDDD-0004''
        = Resolved \<lparr>status = 200, body_text = Some ''null'', body_json = Some JsonNull\<rparr>"
    and e: "remote scenario_env ''key-1-4'' ''sk-live-EEEE-0005''
        = Resolved \<lparr>status = 200, body_text = Some ''{}'', body_json = Some (JsonDoc None)\<rparr>"
    and f: "remote scenario_env ''key-1-5'' ''sk-live-FFFF-0006''
        = Resolved \<lparr>status = 502, body_text = None, body_json = None\<rparr>"
    and g: "remote scenario_env ''key-1-6'' ''sk-live-GGGG-0007'' = Rejected ''network unreachable''"
    by (simp_all add: scenario_defs)
  have t: "fetchApiKeyData_try scenario_env ''key-1-6'' ''sk-live-GGGG-0007''
        = Inl ''network unreachable''"
    by (simp add: fetchApiKeyData_try_def g)
  show ?thesis
    using
      fetchApiKeyData_classification [where env = scenario_env and i = "''key-1-0''"
        and k = "''sk-live-AAAA-0001''" and m = "''none''"
        and r = "\<lparr>status = 200, body_text = Some ''{...}'', body_json = Some usageA\<rparr>"
        and u = "\<lparr>usage_startDate = Some 1700000000000, usage_endDate = Some 1702592000000,
          usage_standard = Some \<lparr>std_orgTotalTokensUsed = Number 400, std_totalAllowance = Number 1000,
            std_usedRatio = Number (2 / 5)\<rparr>\<rparr>"
        and su = "\<lparr>std_orgTotalTokensUsed = Number 400, std_totalAllowance = Number 1000,
            std_usedRatio = Number (2 / 5)\<rparr>"]
      fetchApiKeyData_classification [where env = scenario_env and i = "''key-1-2''"
        and k = "''sk-live-CCCC-0003''" and m = "''none''" and b = "''Unauthorized''"
        and r = "\<lparr>status = 401, body_text = Some ''Unauthorized'', body_json = None\<rparr>"]
      fetchApiKeyData_classification [where env = scenario_env and i = "''key-1-3''"
        and k = "''sk-live-DDDD-0004''" and m = "''none''"
        and r = "\<lparr>status = 200, body_text = Some ''null'', body_json = Some JsonNull\<rparr>"]
      fetchApiKeyData_classification [where env = scenario_env and i = "''key-1-4''"
        and k = "''sk-live-EEEE-0005''" and m = "''none''"
        and r = "\<lparr>status = 200, body_text = Some ''{}'', body_json = Some (JsonDoc None)\<rparr>"]
      fetchApiKeyData_classification [where env = scenario_env and i = "''key-1-5''"
        and k = "''sk-live-FFFF-0006''" and m = "''none''"
        and r = "\<lparr>status = 502, body_text = None, body_json = None\<rparr>"]
      fetchApiKeyData_classification [where env = scenario_env and i = "''key-1-6''"
        and k = "''sk-live-GGGG-0007''" and m = "''network unreachable''"]
    by (simp add: a c d e f g t ok_def usageA_def show_nat.simps digit_char_def failure_def)
qed

text \<open>
  Claim C2 as stated fails on a 2xx response whose body is JSON \<^verbatim>\<open>null\<close>: the body lacks the
  nested structure and no transport exception occurred, yet the classification is the
  one of a transport exception.
\<close>

theorem null_body_counterexample:
  "remote scenario_env ''key-1-3'' ''sk-live-DDDD-0004''
     = Resolved \<lparr>status = 200, body_text = Some ''null'', body_json = Some JsonNull\<rparr>
   \<and> ok \<lparr>status = 200, body_text = Some ''null'', body_json = Some JsonNull\<rparr>
   \<and> error (fst (fetchApiKeyData scenario_env ''key-1-3'' ''sk-live-DDDD-0004''))
       = Some ''Failed to fetch''
   \<and> error (fst (fetchApiKeyData scenario_env ''key-1-3'' ''sk-live-DDDD-0004''))
       \<noteq> Some ''Invalid API response structure''"
  by (simp add: scenario_defs fetch_defs)

section \<open>Duplicate groups and their resolution\<close>

lemma keyMap_spec:
  "distinct (map fst (foldl group_step [] xs))
   \<and> (\<forall>k. map_of (foldl group_step [] xs) k
          = (if k \<in> entry_key ` set xs
             then Some (map entry_id (filter (\<lambda>e. entry_key e = k) xs)) else None))"
proof (induction xs rule: rev_induct)
  case Nil
  then show ?case by simp
next
  case (snoc x xs)
  define km where "km = foldl group_step [] xs"
  have d: "distinct (map fst km)"
    and m: "\<And>k. map_of km k = (if k \<in> entry_key ` set xs
             then Some (map entry_id (filter (\<lambda>e. entry_key e = k) xs)) else None)"
    using snoc by (simp_all add: km_def)
  have existing: "(case map_of km (entry_key x) of None \<Rightarrow> [] | Some l \<Rightarrow> l)
      = map entry_id (filter (\<lambda>e. entry_key e = entry_key x) xs)"
  proof (cases "entry_key x \<in> entry_key ` set xs")
    case True
    then show ?thesis by (simp add: m)
  next
    case False
    then have "filter (\<lambda>e. entry_key e = entry_key x) xs = []"
      unfolding filter_empty_conv by (metis imageI)
    with False show ?thesis by (simp add: m)
  qed
  have step: "foldl group_step [] (xs @ [x])
      = AList.update (entry_key x)
          (map entry_id (filter (\<lambda>e. entry_key e = entry_key x) xs) @ [entry_id x]) km"
    by (simp add: group_step_def Let_def existing km_def [symmetric])
  have "distinct (map fst (foldl group_step [] (xs @ [x])))"
    unfolding step using d by (rule distinct_update)
  moreover have "map_of (foldl group_step [] (xs @ [x])) k
      = (if k \<in> entry_key ` set (xs @ [x])
         then Some (map entry_id (filter (\<lambda>e. entry_key e = k) (xs @ [x]))) else None)" for k
    unfolding step by (auto simp: update_conv' m)
  ultimately show ?case by blast
qed

lemma findDuplicateKeys_groups:
  assumes "g \<in> set (findDuplicateKeys s)"
  shows "\<exists>k. dup_key g = maskedKey k
     \<and> ids g = map entry_id (filter (\<lambda>e. entry_key e = k) s)
     \<and> count g = length (ids g) \<and> length (ids g) > 1"
proof -
  define km where "km = foldl group_step [] s"
  from assms obtain k l where kl: "(k, l) \<in> set km" "length l > 1"
    and g: "g = \<lparr>dup_key = maskedKey k, ids = l, count = length l\<rparr>"
    by (auto simp: findDuplicateKeys_def Let_def km_def)
  have "distinct (map fst km)" using keyMap_spec [of s] by (simp add: km_def)
  with kl have "map_of km k = Some l" by simp
  then have "l = map entry_id (filter (\<lambda>e. entry_key e = k) s)"
    using keyMap_spec [of s] by (auto simp: km_def split: if_splits)
  with g kl show ?thesis by auto
qed

lemma findDuplicateKeys_complete:
  assumes "length (filter (\<lambda>e. entry_key e = k) s) > 1"
  shows "\<lparr>dup_key = maskedKey k, ids = map entry_id (filter (\<lambda>e. entry_key e = k) s),
           count = length (filter (\<lambda>e. entry_key e = k) s)\<rparr> \<in> set (findDuplicateKeys s)"
proof -
  define km where "km = foldl group_step [] s"
  define l where "l = map entry_id (filter (\<lambda>e. entry_key e = k) s)"
  from assms have "filter (\<lambda>e. entry_key e = k) s \<noteq> []" by auto
  then have "k \<in> entry_key ` set s" by (auto simp: filter_empty_conv)
  then have "map_of km k = Some l"
    using keyMap_spec [of s] by (simp add: km_def l_def)
  then have "(k, l) \<in> set km" by (rule map_of_SomeD)
  moreover have "length l > 1" using assms by (simp add: l_def)
  ultimately have "(k, l) \<in> set (filter (\<lambda>(k, l). length l > 1) km)" by simp
  then have "(\<lambda>(k, l). \<lparr>dup_key = maskedKey k, ids = l, count = length l\<rparr>) (k, l)
      \<in> (\<lambda>(k, l). \<lparr>dup_key = maskedKey k, ids = l, count = length l\<rparr>)
          ` set (filter (\<lambda>(k, l). length l > 1) km)"
    by (rule imageI)
  then show ?thesis by (simp add: findDuplicateKeys_def Let_def km_def l_def)
qed

lemma delete_each_ok:
  assumes "delete_each env is s n = (s', Inr n')"
  shows "s' = filter (\<lambda>e. entry_id e \<notin> set is) s \<and> n' = n + length is"
  using assms
proof (induction "is" arbitrary: s n)
  case Nil
  then show ?case by simp
next
  case (Cons i "is")
  from Cons.prems have nf: "\<not> deleteFails env i"
    and rest: "delete_each env is (deleteApiKey i s) (n + 1) = (s', Inr n')"
    by (auto split: if_splits)
  from Cons.IH [OF rest] show ?case
    by (auto simp: deleteApiKey_def intro: filter_cong)
qed

lemma clean_groups_ok:
  assumes "clean_groups env gs s n = (s', Inr n')"
  shows "s' = filter (\<lambda>e. entry_id e \<notin> (\<Union>g\<in>set gs. set (drop 1 (ids g)))) s
     \<and> n' = n + (\<Sum>g\<leftarrow>gs. length (drop 1 (ids g)))"
  using assms
proof (induction gs arbitrary: s n)
  case Nil
  then show ?case by simp
next
  case (Cons g gs)
  from Cons.prems obtain s1 n1 where
    one: "delete_each env (drop 1 (ids g)) s n = (s1, Inr n1)"
    and rest: "clean_groups env gs s1 n1 = (s', Inr n')"
    by (auto split: prod.splits sum.splits)
  from delete_each_ok [OF one] Cons.IH [OF rest] show ?case
    by (auto intro: filter_cong)
qed

lemma duplicates_clean_ok:
  assumes "duplicates_clean env s = (s', 200, body)"
  shows "\<exists>n. clean_groups env (findDuplicateKeys s) s 0 = (s', Inr n)
           \<and> body = Cleaned n (''Successfully deleted '' @ show_nat n @ '' duplicate keys'')"
  using assms
  by (auto simp: duplicates_clean_def split: if_splits prod.splits sum.splits)

lemma dup_groups:
  "findDuplicateKeys dup_store
     = [\<lparr>dup_key = ''sk-l...0009'',
         ids = [''key-1700000000001'', ''key-1700000000002'', ''key-1700000000003''],
         count = 3\<rparr>]"
  by (simp add: findDuplicateKeys_def group_step_def dup_defs maskedKey_def)

lemma dup_clean:
  "duplicates_clean scenario_env dup_store
     = ([entryA, entryD], 200, Cleaned 2 ''Successfully deleted 2 duplicate keys'')"
  by (simp add: duplicates_clean_def dup_groups)
    (simp add: dup_defs scenario_env_def deleteApiKey_def show_nat.simps digit_char_def)

text \<open>
  What the route does on every store: take a store with distinct ids (they are keys of the
  key-value store) on which the route answers 200.  Every group reported by
  \<^verbatim>\<open>findDuplicateKeys\<close> consists of the entries sharing one secret, in the iteration order
  of the store, and has at least two members.  After the route all but exactly one member
  of the group are deleted, and the member that remains is the first one in the iteration
  order.  Where the store iterates in the order of creation times, that member is the
  earliest created of the group.
\<close>

lemma duplicates_clean_keeps_first:
  assumes "distinct (map entry_id s)"
    and "duplicates_clean env s = (s', 200, body)"
    and "g \<in> set (findDuplicateKeys s)"
  shows "\<exists>k first rest.
      filter (\<lambda>e. entry_key e = k) s = first # rest \<and> rest \<noteq> []
      \<and> dup_key g = maskedKey k \<and> ids g = map entry_id (first # rest)
      \<and> filter (\<lambda>e. entry_id e \<in> set (ids g)) s' = [first]
      \<and> filter (\<lambda>e. entry_key e = k) s' = [first]
      \<and> (sorted (map createdAt s) \<longrightarrow> (\<forall>e\<in>set rest. createdAt first \<le> createdAt e))"
proof -
  define D where "D = (\<Union>g\<in>set (findDuplicateKeys s). set (drop 1 (ids g)))"
  from findDuplicateKeys_groups [OF assms(3)] obtain k where
    key: "dup_key g = maskedKey k"
    and idsg: "ids g = map entry_id (filter (\<lambda>e. entry_key e = k) s)"
    and big: "length (ids g) > 1"
    by blast
  define M where "M = filter (\<lambda>e. entry_key e = k) s"
  have "length M > 1" using big by (simp add: idsg M_def)
  then obtain first rest where M: "M = first # rest" and rest: "rest \<noteq> []"
    by (cases M) auto
  from duplicates_clean_ok [OF assms(2)] obtain n where
    "clean_groups env (findDuplicateKeys s) s 0 = (s', Inr n)" by blast
  from clean_groups_ok [OF this] have s': "s' = filter (\<lambda>e. entry_id e \<notin> D) s"
    by (simp add: D_def)
  have inj: "inj_on entry_id (set s)" and ds: "distinct s"
    using assms(1) by (simp_all add: distinct_map)
  have dM: "distinct M" using ds by (simp add: M_def)
  have Ms: "set M \<subseteq> set s" by (auto simp: M_def)
  have "first \<in> set (filter (\<lambda>e. entry_key e = k) s)"
    using M by (simp add: M_def)
  then have first_s: "first \<in> set s" and first_k: "entry_key first = k"
    by simp_all
  have gone: "entry_id e \<in> D" if "e \<in> set rest" for e
  proof -
    have "entry_id e \<in> set (drop 1 (ids g))"
      using that by (simp add: idsg M_def [symmetric] M)
    then show ?thesis using assms(3) by (auto simp: D_def)
  qed
  have kept: "entry_id first \<notin> D"
  proof
    assume "entry_id first \<in> D"
    then obtain g' where g': "g' \<in> set (findDuplicateKeys s)"
      and inn: "entry_id first \<in> set (drop 1 (ids g'))"
      by (auto simp: D_def)
    from findDuplicateKeys_groups [OF g'] obtain k' where
      idsg': "ids g' = map entry_id (filter (\<lambda>e. entry_key e = k') s)" by blast
    define M' where "M' = filter (\<lambda>e. entry_key e = k') s"
    from inn have "entry_id first \<in> entry_id ` set (tl M')"
      by (simp add: idsg' M'_def [symmetric] drop_Suc drop_map)
    then obtain e' where e': "e' \<in> set (tl M')" and same: "entry_id e' = entry_id first"
      by force
    have e'M': "e' \<in> set M'" using e' by (cases M') auto
    then have "e' \<in> set s" and "entry_key e' = k'" by (auto simp: M'_def)
    with inj same first_s have "e' = first" by (auto dest: inj_onD)
    with \<open>entry_key e' = k'\<close> first_k have "k' = k" by simp
    then have "M' = M" by (simp add: M'_def M_def)
    with e' \<open>e' = first\<close> have "first \<in> set rest" by (simp add: M)
    with dM show False by (simp add: M)
  qed
  have "filter (\<lambda>e. entry_key e = k) s' = filter (\<lambda>e. entry_id e \<notin> D) M"
    unfolding s' M_def by (simp add: conj_commute)
  also have "\<dots> = [first]"
    unfolding M using kept gone by (simp add: filter_empty_conv)
  finally have byKey: "filter (\<lambda>e. entry_key e = k) s' = [first]" .
  have "entry_id e \<in> set (ids g) \<longleftrightarrow> entry_key e = k" if "e \<in> set s'" for e
  proof
    assume "entry_id e \<in> set (ids g)"
    then obtain m where m: "m \<in> set M" and "entry_id m = entry_id e"
      by (auto simp: idsg M_def)
    moreover have "e \<in> set s" using that by (simp add: s')
    ultimately have "m = e" using inj Ms by (auto dest: inj_onD)
    with m show "entry_key e = k" by (simp add: M_def)
  next
    assume "entry_key e = k"
    moreover have "e \<in> set s" using that by (simp add: s')
    ultimately show "entry_id e \<in> set (ids g)" by (simp add: idsg)
  qed
  then have "filter (\<lambda>e. entry_id e \<in> set (ids g)) s' = filter (\<lambda>e. entry_key e = k) s'"
    by (intro filter_cong) auto
  with byKey have byId: "filter (\<lambda>e. entry_id e \<in> set (ids g)) s' = [first]" by simp
  have old: "sorted (map createdAt s) \<longrightarrow> (\<forall>e\<in>set rest. createdAt first \<le> createdAt e)"
  proof
    assume "sorted (map createdAt s)"
    then have "sorted (map createdAt M)" unfolding M_def by (rule sorted_filter)
    then show "\<forall>e\<in>set rest. createdAt first \<le> createdAt e" by (simp add: M)
  qed
  show ?thesis
    using M [unfolded M_def] rest key idsg [folded M_def, unfolded M] byId byKey old
    by (intro exI [of _ k] exI [of _ first] exI [of _ rest]) (simp add: M_def [symmetric] M)
qed

lemma duplicates_clean_keeps_first_example:
  "\<exists>k first rest.
      filter (\<lambda>e. entry_key e = k) dup_store = first # rest \<and> rest \<noteq> []
      \<and> ids \<lparr>dup_key = ''sk-l...0009'',
              ids = [''key-1700000000001'', ''key-1700000000002'', ''key-1700000000003''],
              count = 3\<rparr> = map entry_id (first # rest)
      \<and> filter (\<lambda>e. entry_id e
               \<in> {''key-1700000000001'', ''key-1700000000002'', ''key-1700000000003''})
            (fst (duplicates_clean scenario_env dup_store)) = [first]
      \<and> filter (\<lambda>e. entry_key e = k) (fst (duplicates_clean scenario_env dup_store)) = [first]
      \<and> (\<forall>e\<in>set rest. createdAt first \<le> createdAt e)
      \<and> first = entryD \<and> fst (duplicates_clean scenario_env dup_store) = [entryA, entryD]"
proof -
  have d: "distinct (map entry_id dup_store)" by (simp add: dup_defs)
  have srt: "sorted (map createdAt dup_store)" by (simp add: dup_defs)
  have g: "\<lparr>dup_key = ''sk-l...0009'',
             ids = [''key-1700000000001'', ''key-1700000000002'', ''key-1700000000003''],
             count = 3\<rparr> \<in> set (findDuplicateKeys dup_store)"
    by (simp add: dup_groups)
  from duplicates_clean_keeps_first [OF d dup_clean g] obtain k first rest where
    r: "filter (\<lambda>e. entry_key e = k) dup_store = first # rest" "rest \<noteq> []"
      "ids \<lparr>dup_key = ''sk-l...0009'',
              ids = [''key-1700000000001'', ''key-1700000000002'', ''key-1700000000003''],
              count = 3\<rparr> = map entry_id (first # rest)"
      "filter (\<lambda>e. entry_id e \<in> set (ids \<lparr>dup_key = ''sk-l...0009'',
              ids = [''key-1700000000001'', ''key-1700000000002'', ''key-1700000000003''],
              count = 3\<rparr>)) [entryA, entryD] = [first]"
      "filter (\<lambda>e. entry_key e = k) [entryA, entryD] = [first]"
      "sorted (map createdAt dup_store) \<longrightarrow> (\<forall>e\<in>set rest. createdAt first \<le> createdAt e)"
    by blast
  from r(4) have r4: "filter (\<lambda>e. entry_id e
               \<in> {''key-1700000000001'', ''key-1700000000002'', ''key-1700000000003''})
            [entryA, entryD] = [first]"
    by simp
  from r(4) have first: "first = entryD" by (simp add: entryA_def entryD_def)
  from r(6) srt have r6: "\<forall>e\<in>set rest. createdAt first \<le> createdAt e" by (rule mp)
  have st: "fst (duplicates_clean scenario_env dup_store) = [entryA, entryD]"
    by (simp add: dup_clean)
  show ?thesis
    unfolding st using r(1) r(2) r(3) r4 r(5) r6 first by blast
qed

lemma race_store_eq:
  "race_store
     = [\<lparr>entry_id = ''key-1700000000000'', entry_key = ''sk-live-RACE-0001'',
         entry_name = Some ''Key key-1700000000000'', entry_note = None,
         createdAt = 1700000000001\<rparr>,
        \<lparr>entry_id = ''key-1700000000000-0'', entry_key = ''sk-live-RACE-0001'',
         entry_name = Some ''Key key-1700000000000-0'', entry_note = None,
         createdAt = 1700000000000\<rparr>]"
  by (simp add: race_store_def add_key_def batchImportKeys_def import_entry_def trim_def
      is_space_def checkDuplicateKey_def saveApiKey_def kv_set_def show_nat.simps digit_char_def
      Let_def scenario_env_def)

text \<open>
  Claim C4 says that after duplicate resolution the surviving member of each group is the
  earliest-created one, which it takes to be the first in the iteration order of the
  store; the page announces the same (``keep the earliest imported one'').  The route
  keeps the first id of the group, and the store iterates in the order of the ids, which
  is not always the order of creation.  In the race scenario the entry added last has the
  smaller id: the route answers 200, deletes the entry created at 1700000000000 and keeps
  the one created at 1700000000001.
\<close>

theorem duplicates_clean_keeps_later:
  "race_store
     = [\<lparr>entry_id = ''key-1700000000000'', entry_key = ''sk-live-RACE-0001'',
         entry_name = Some ''Key key-1700000000000'', entry_note = None,
         createdAt = 1700000000001\<rparr>,
        \<lparr>entry_id = ''key-1700000000000-0'', entry_key = ''sk-live-RACE-0001'',
         entry_name = Some ''Key key-1700000000000-0'', entry_note = None,
         createdAt = 1700000000000\<rparr>]
   \<and> map ids (findDuplicateKeys race_store) = [[''key-1700000000000'', ''key-1700000000000-0'']]
   \<and> duplicates_clean scenario_env race_store
     = ([\<lparr>entry_id = ''key-1700000000000'', entry_key = ''sk-live-RACE-0001'',
          entry_name = Some ''Key key-1700000000000'', entry_note = None,
          createdAt = 1700000000001\<rparr>],
        200, Cleaned 1 ''Successfully deleted 1 duplicate keys'')"
proof -
  have g: "findDuplicateKeys race_store
      = [\<lparr>dup_key = ''sk-l...0001'', ids = [''key-1700000000000'', ''key-1700000000000-0''],
          count = 2\<rparr>]"
    unfolding race_store_eq by (simp add: findDuplicateKeys_def group_step_def maskedKey_def)
  have c: "duplicates_clean scenario_env race_store
     = ([\<lparr>entry_id = ''key-1700000000000'', entry_key = ''sk-live-RACE-0001'',
          entry_name = Some ''Key key-1700000000000'', entry_note = None,
          createdAt = 1700000000001\<rparr>],
        200, Cleaned 1 ''Successfully deleted 1 duplicate keys'')"
    by (simp add: duplicates_clean_def g)
      (simp add: race_store_eq scenario_env_def deleteApiKey_def show_nat.simps digit_char_def)
  show ?thesis using race_store_eq g c by simp
qed

text \<open>
  Claim C8 says that the members of a group are deleted independently: when the deletion
  of one member fails, the deletion of the remaining members is still attempted.  The
  route does otherwise.  In the scenario D, E and F form one group and the deletion of E
  throws: the route answers 500 at once, and F stays in the store although its deletion
  would not have failed.
\<close>

theorem duplicates_clean_aborts:
  "duplicates_clean failing_env dup_store = (dup_store, 500, CleanFailed ''kv.delete failed'')
   \<and> ids (hd (findDuplicateKeys dup_store))
       = [''key-1700000000001'', ''key-1700000000002'', ''key-1700000000003'']
   \<and> deleteFails failing_env ''key-1700000000002''
   \<and> \<not> deleteFails failing_env ''key-1700000000003''
   \<and> entryF \<in> set (fst (duplicates_clean failing_env dup_store))"
proof -
  have "duplicates_clean failing_env dup_store = (dup_store, 500, CleanFailed ''kv.delete failed'')"
    by (simp add: duplicates_clean_def dup_groups)
      (simp add: failing_env_def scenario_env_def)
  then show ?thesis
    by (simp add: dup_groups) (simp add: failing_env_def scenario_env_def dup_store_def)
qed

section \<open>Batch import\<close>

lemmas import_defs = batchImportKeys_def import_entry_def trim_def is_space_def checkDuplicateKey_def
  saveApiKey_def kv_set_def maskedKey_def prefixKey_def show_nat.simps digit_char_def Let_def

lemma import_run_blank: "batchImportKeys scenario_env ['''', ''  '', ''sk-live-1''] []
  = ([\<lparr>entry_id = ''key-1700000000000-2'', entry_key = ''sk-live-1'',
        entry_name = Some ''Key key-1700000000000-2'', entry_note = None,
        createdAt = 1700000000000\<rparr>],
     \<lparr>success = 1, failed = 0, duplicates = 0, duplicateKeys = []\<rparr>, [])"
  by (simp add: import_defs scenario_env_def)

lemma import_run_mixed: "batchImportKeys import_env import_lines [entryA]
  = ([entryA, \<lparr>entry_id = ''key-1700000000000-3'', entry_key = ''sk-new-1'',
        entry_name = Some ''Key key-1700000000000-3'', entry_note = None,
        createdAt = 1700000000000\<rparr>],
     \<lparr>success = 1, failed = 1, duplicates = 2, duplicateKeys = [''sk-l...0001'', ''sk-n...ew-1'']\<rparr>,
     [''Skipped duplicate key: sk-l...'', ''Skipped duplicate key: sk-n...'',
      ''Failed to import key 5:''])"
  by (simp add: import_defs import_env_def import_lines_def scenario_env_def entryA_def)

lemma import_loop_append:
  "import_loop env i (xs @ ys) st = import_loop env (i + length xs) ys (import_loop env i xs st)"
  by (induction xs arbitrary: i st) simp_all

lemma import_entry_tally:
  assumes "import_entry env i raw (s, t, lg) = (s', t', lg')"
  shows "success t' + failed t' + duplicates t'
           = success t + failed t + duplicates t + (if trim raw = [] then 0 else 1)
       \<and> (length (duplicateKeys t) = duplicates t \<longrightarrow> length (duplicateKeys t') = duplicates t')"
  using assms by (auto simp: import_entry_def Let_def split: if_splits)

lemma import_loop_tally:
  assumes "import_loop env i keys (s, t, lg) = (s', t', lg')"
  shows "success t' + failed t' + duplicates t'
           = success t + failed t + duplicates t + length (filter (\<lambda>raw. trim raw \<noteq> []) keys)
       \<and> (length (duplicateKeys t) = duplicates t \<longrightarrow> length (duplicateKeys t') = duplicates t')"
  using assms
proof (induction keys arbitrary: i s t lg)
  case Nil
  then show ?case by simp
next
  case (Cons raw keys)
  obtain s1 t1 lg1 where one: "import_entry env i raw (s, t, lg) = (s1, t1, lg1)"
    by (cases "import_entry env i raw (s, t, lg)") auto
  with Cons.prems have rest: "import_loop env (i + 1) keys (s1, t1, lg1) = (s', t', lg')"
    by simp
  from import_entry_tally [OF one] Cons.IH [OF rest] show ?case
    by (auto split: if_splits)
qed

text \<open>
  Claim C5.  \<^verbatim>\<open>batchImportKeys\<close> handles the entry at any position by one turn of its loop on
  the store and tally the entries before it left, and goes on with the entries after it
  whatever that turn did.  In a turn, an entry that is blank after trimming changes
  nothing; a non-blank entry whose trimmed secret is in the store adds 1 to \<^verbatim>\<open>duplicates\<close>,
  records the masked secret and leaves the store as it is; a non-blank entry that is not
  in the store and is written successfully adds 1 to \<^verbatim>\<open>success\<close> and is in the store
  afterwards; and an exception of the store (on reading or on writing) adds 1 to
  \<^verbatim>\<open>failed\<close> and leaves the store as it is.  Over the whole input, the three counters add
  up to the number of non-blank entries, and one masked secret is recorded per duplicate.
\<close>

theorem batchImportKeys_entries:
  "batchImportKeys env (pre @ raw # post) s
     = import_loop env (length pre + 1) post
         (import_entry env (length pre) raw (batchImportKeys env pre s))
   \<and> (trim raw = [] \<longrightarrow> import_entry env i raw (st, t, lg) = (st, t, lg))
   \<and> (trim raw \<noteq> [] \<and> \<not> listFails env i \<and> (\<exists>e\<in>set st. entry_key e = trim raw)
      \<longrightarrow> import_entry env i raw (st, t, lg)
          = (st, t\<lparr>duplicates := duplicates t + 1,
                    duplicateKeys := duplicateKeys t @ [maskedKey (trim raw)]\<rparr>,
             lg @ [''Skipped duplicate key: '' @ prefixKey (trim raw)]))
   \<and> (trim raw \<noteq> [] \<and> \<not> listFails env i \<and> (\<forall>e\<in>set st. entry_key e \<noteq> trim raw)
        \<and> \<not> setFails env i
      \<longrightarrow> import_entry env i raw (st, t, lg)
            = (saveApiKey (saveTime env i) (''key-'' @ show_nat (idTime env i) @ ''-'' @ show_nat i)
                 (trim raw) None st,
               t\<lparr>success := success t + 1\<rparr>, lg)
          \<and> (\<exists>e\<in>set (fst (import_entry env i raw (st, t, lg))). entry_key e = trim raw))
   \<and> (trim raw \<noteq> []
        \<and> (listFails env i \<or> (\<forall>e\<in>set st. entry_key e \<noteq> trim raw) \<and> setFails env i)
      \<longrightarrow> import_entry env i raw (st, t, lg)
          = (st, t\<lparr>failed := failed t + 1\<rparr>, lg @ [''Failed to import key '' @ show_nat i @ '':'']))
   \<and> success (fst (snd (batchImportKeys env keys s))) + failed (fst (snd (batchImportKeys env keys s)))
        + duplicates (fst (snd (batchImportKeys env keys s)))
       = length (filter (\<lambda>raw. trim raw \<noteq> []) keys)
   \<and> length (duplicateKeys (fst (snd (batchImportKeys env keys s))))
       = duplicates (fst (snd (batchImportKeys env keys s)))"
proof -
  have c1: "batchImportKeys env (pre @ raw # post) s
     = import_loop env (length pre + 1) post
         (import_entry env (length pre) raw (batchImportKeys env pre s))"
    by (simp add: batchImportKeys_def import_loop_append)
  have c2: "trim raw = [] \<longrightarrow> import_entry env i raw (st, t, lg) = (st, t, lg)"
    by (simp add: import_entry_def)
  have c3: "trim raw \<noteq> [] \<and> \<not> listFails env i \<and> (\<exists>e\<in>set st. entry_key e = trim raw)
      \<longrightarrow> import_entry env i raw (st, t, lg)
          = (st, t\<lparr>duplicates := duplicates t + 1,
                    duplicateKeys := duplicateKeys t @ [maskedKey (trim raw)]\<rparr>,
             lg @ [''Skipped duplicate key: '' @ prefixKey (trim raw)])"
    by (auto simp: import_entry_def checkDuplicateKey_def list_ex_iff Let_def)
  have c4: "trim raw \<noteq> [] \<and> \<not> listFails env i \<and> (\<forall>e\<in>set st. entry_key e \<noteq> trim raw)
        \<and> \<not> setFails env i
      \<longrightarrow> import_entry env i raw (st, t, lg)
            = (saveApiKey (saveTime env i) (''key-'' @ show_nat (idTime env i) @ ''-'' @ show_nat i)
                 (trim raw) None st,
               t\<lparr>success := success t + 1\<rparr>, lg)
          \<and> (\<exists>e\<in>set (fst (import_entry env i raw (st, t, lg))). entry_key e = trim raw)"
  proof
    assume "trim raw \<noteq> [] \<and> \<not> listFails env i \<and> (\<forall>e\<in>set st. entry_key e \<noteq> trim raw)
        \<and> \<not> setFails env i"
    then have eq: "import_entry env i raw (st, t, lg)
            = (saveApiKey (saveTime env i) (''key-'' @ show_nat (idTime env i) @ ''-'' @ show_nat i)
                 (trim raw) None st,
               t\<lparr>success := success t + 1\<rparr>, lg)"
      by (auto simp: import_entry_def checkDuplicateKey_def list_ex_iff Let_def)
    have "\<exists>e\<in>set (fst (import_entry env i raw (st, t, lg))). entry_key e = trim raw"
      unfolding eq by (simp add: saveApiKey_def kv_set_def set_insort_key)
    with eq show "import_entry env i raw (st, t, lg)
            = (saveApiKey (saveTime env i) (''key-'' @ show_nat (idTime env i) @ ''-'' @ show_nat i)
                 (trim raw) None st,
               t\<lparr>success := success t + 1\<rparr>, lg)
          \<and> (\<exists>e\<in>set (fst (import_entry env i raw (st, t, lg))). entry_key e = trim raw)"
      by (rule conjI)
  qed
  have c5: "trim raw \<noteq> []
        \<and> (listFails env i \<or> (\<forall>e\<in>set st. entry_key e \<noteq> trim raw) \<and> setFails env i)
      \<longrightarrow> import_entry env i raw (st, t, lg)
          = (st, t\<lparr>failed := failed t + 1\<rparr>, lg @ [''Failed to import key '' @ show_nat i @ '':''])"
    by (auto simp: import_entry_def checkDuplicateKey_def list_ex_iff Let_def)
  obtain s' t' lg' where r: "batchImportKeys env keys s = (s', t', lg')"
    by (cases "batchImportKeys env keys s") auto
  from import_loop_tally [OF r [unfolded batchImportKeys_def]]
  have c6: "success (fst (snd (batchImportKeys env keys s)))
        + failed (fst (snd (batchImportKeys env keys s)))
        + duplicates (fst (snd (batchImportKeys env keys s)))
       = length (filter (\<lambda>raw. trim raw \<noteq> []) keys)"
    and c7: "length (duplicateKeys (fst (snd (batchImportKeys env keys s))))
       = duplicates (fst (snd (batchImportKeys env keys s)))"
    by (simp_all add: r)
  show ?thesis
    by (intro conjI; fact c1 c2 c3 c4 c5 c6 c7)
qed

theorem batchImportKeys_entries_witness:
  "import_entry import_env 0 '''' ([entryA], \<lparr>success = 0, failed = 0, duplicates = 0, duplicateKeys = []\<rparr>, [])
     = ([entryA], \<lparr>success = 0, failed = 0, duplicates = 0, duplicateKeys = []\<rparr>, [])
   \<and> import_entry import_env 2 '' sk-live-AAAA-0001 ''
       ([entryA], \<lparr>success = 0, failed = 0, duplicates = 0, duplicateKeys = []\<rparr>, [])
     = ([entryA], \<lparr>success = 0, failed = 0, duplicates = 1, duplicateKeys = [''sk-l...0001'']\<rparr>,
        [''Skipped duplicate key: sk-l...''])
   \<and> (\<exists>e\<in>set (fst (import_entry import_env 3 ''sk-new-1''
          ([entryA], \<lparr>success = 0, failed = 0, duplicates = 0, duplicateKeys = []\<rparr>, []))).
        entry_key e = ''sk-new-1'')
   \<and> import_entry import_env 5 ''sk-fail''
       ([entryA], \<lparr>success = 0, failed = 0, duplicates = 0, duplicateKeys = []\<rparr>, [])
     = ([entryA], \<lparr>success = 0, failed = 1, duplicates = 0, duplicateKeys = []\<rparr>,
        [''Failed to import key 5:''])
   \<and> fst (snd (batchImportKeys import_env import_lines [entryA]))
     = \<lparr>success = 1, failed = 1, duplicates = 2, duplicateKeys = [''sk-l...0001'', ''sk-n...ew-1'']\<rparr>
   \<and> length (filter (\<lambda>raw. trim raw \<noteq> []) import_lines) = 4
   \<and> fst (snd (batchImportKeys scenario_env ['''', ''  '', ''sk-live-1''] []))
     = \<lparr>success = 1, failed = 0, duplicates = 0, duplicateKeys = []\<rparr>
   \<and> length (fst (batchImportKeys scenario_env ['''', ''  '', ''sk-live-1''] [])) = 1"
proof -
  let ?t0 = "\<lparr>success = 0, failed = 0, duplicates = 0, duplicateKeys = []\<rparr>"
  have tr: "trim '''' = []" "trim '' sk-live-AAAA-0001 '' = ''sk-live-AAAA-0001''"
    "trim ''sk-new-1'' = ''sk-new-1''" "trim ''sk-fail'' = ''sk-fail''"
    by (simp_all add: trim_def is_space_def)
  have env: "\<not> listFails import_env 2" "\<not> listFails import_env 3" "\<not> setFails import_env 3"
    "setFails import_env 5" "\<not> listFails import_env 5"
    by (simp_all add: import_env_def scenario_env_def)
  have ka: "entry_key entryA = ''sk-live-AAAA-0001''" by (simp add: entryA_def)
  have w1: "import_entry import_env 0 '''' ([entryA], ?t0, []) = ([entryA], ?t0, [])"
    using batchImportKeys_entries [where env = import_env and raw = "''''" and i = 0
        and st = "[entryA]" and t = ?t0 and lg = "[]" and pre = "[]" and post = "[]"
        and s = "[]" and keys = "[]", THEN conjunct2, THEN conjunct1] tr(1)
    by (rule mp)
  have h2: "trim '' sk-live-AAAA-0001 '' \<noteq> [] \<and> \<not> listFails import_env 2
      \<and> (\<exists>e\<in>set [entryA]. entry_key e = trim '' sk-live-AAAA-0001 '')"
    by (simp add: tr env ka)
  have "import_entry import_env 2 '' sk-live-AAAA-0001 '' ([entryA], ?t0, [])
      = ([entryA], ?t0\<lparr>duplicates := duplicates ?t0 + 1,
                    duplicateKeys := duplicateKeys ?t0 @ [maskedKey (trim '' sk-live-AAAA-0001 '')]\<rparr>,
             [] @ [''Skipped duplicate key: '' @ prefixKey (trim '' sk-live-AAAA-0001 '')])"
    using batchImportKeys_entries [where env = import_env and raw = "'' sk-live-AAAA-0001 ''"
        and i = 2 and st = "[entryA]" and t = ?t0 and lg = "[]" and pre = "[]" and post = "[]"
        and s = "[]" and keys = "[]", THEN conjunct2, THEN conjunct2, THEN conjunct1] h2
    by (rule mp)
  then have w2: "import_entry import_env 2 '' sk-live-AAAA-0001 '' ([entryA], ?t0, [])
      = ([entryA], \<lparr>success = 0, failed = 0, duplicates = 1, duplicateKeys = [''sk-l...0001'']\<rparr>,
        [''Skipped duplicate key: sk-l...''])"
    by (simp add: tr maskedKey_def prefixKey_def)
  have h3: "trim ''sk-new-1'' \<noteq> [] \<and> \<not> listFails import_env 3
      \<and> (\<forall>e\<in>set [entryA]. entry_key e \<noteq> trim ''sk-new-1'') \<and> \<not> setFails import_env 3"
    by (simp add: tr env ka)
  have "import_entry import_env 3 ''sk-new-1'' ([entryA], ?t0, [])
            = (saveApiKey (saveTime import_env 3)
                 (''key-'' @ show_nat (idTime import_env 3) @ ''-'' @ show_nat 3)
                 (trim ''sk-new-1'') None [entryA],
               ?t0\<lparr>success := success ?t0 + 1\<rparr>, [])
          \<and> (\<exists>e\<in>set (fst (import_entry import_env 3 ''sk-new-1'' ([entryA], ?t0, []))).
                entry_key e = trim ''sk-new-1'')"
    using batchImportKeys_entries [where env = import_env and raw = "''sk-new-1''"
        and i = 3 and st = "[entryA]" and t = ?t0 and lg = "[]" and pre = "[]" and post = "[]"
        and s = "[]" and keys = "[]",
        THEN conjunct2, THEN conjunct2, THEN conjunct2, THEN conjunct1] h3
    by (rule mp)
  then have "\<exists>e\<in>set (fst (import_entry import_env 3 ''sk-new-1'' ([entryA], ?t0, []))).
        entry_key e = trim ''sk-new-1''"
    by (rule conjunct2)
  then have w3: "\<exists>e\<in>set (fst (import_entry import_env 3 ''sk-new-1'' ([entryA], ?t0, []))).
        entry_key e = ''sk-new-1''"
    by (simp only: tr)
  have h5: "trim ''sk-fail'' \<noteq> []
      \<and> (listFails import_env 5
          \<or> (\<forall>e\<in>set [entryA]. entry_key e \<noteq> trim ''sk-fail'') \<and> setFails import_env 5)"
    by (simp add: tr env ka)
  have "import_entry import_env 5 ''sk-fail'' ([entryA], ?t0, [])
      = ([entryA], ?t0\<lparr>failed := failed ?t0 + 1\<rparr>,
         [] @ [''Failed to import key '' @ show_nat 5 @ '':''])"
    using batchImportKeys_entries [where env = import_env and raw = "''sk-fail''"
        and i = 5 and st = "[entryA]" and t = ?t0 and lg = "[]" and pre = "[]" and post = "[]"
        and s = "[]" and keys = "[]",
        THEN conjunct2, THEN conjunct2, THEN conjunct2, THEN conjunct2, THEN conjunct1] h5
    by (rule mp)
  then have w5: "import_entry import_env 5 ''sk-fail'' ([entryA], ?t0, [])
      = ([entryA], \<lparr>success = 0, failed = 1, duplicates = 0, duplicateKeys = []\<rparr>,
        [''Failed to import key 5:''])"
    by (simp add: show_nat.simps digit_char_def)
  have w6: "fst (snd (batchImportKeys import_env import_lines [entryA]))
     = \<lparr>success = 1, failed = 1, duplicates = 2, duplicateKeys = [''sk-l...0001'', ''sk-n...ew-1'']\<rparr>"
    by (simp add: import_run_mixed)
  have "success (fst (snd (batchImportKeys import_env import_lines [entryA])))
        + failed (fst (snd (batchImportKeys import_env import_lines [entryA])))
        + duplicates (fst (snd (batchImportKeys import_env import_lines [entryA])))
       = length (filter (\<lambda>raw. trim raw \<noteq> []) import_lines)"
    using batchImportKeys_entries [where env = import_env and raw = "''sk-fail''"
        and i = 5 and st = "[entryA]" and t = ?t0 and lg = "[]" and pre = "[]" and post = "[]"
        and s = "[entryA]" and keys = import_lines,
        THEN conjunct2, THEN conjunct2, THEN conjunct2, THEN conjunct2, THEN conjunct2,
        THEN conjunct1] .
  then have w7: "length (filter (\<lambda>raw. trim raw \<noteq> []) import_lines) = 4"
    by (simp add: w6)
  have w8: "fst (snd (batchImportKeys scenario_env ['''', ''  '', ''sk-live-1''] []))
     = \<lparr>success = 1, failed = 0, duplicates = 0, duplicateKeys = []\<rparr>"
    and w9: "length (fst (batchImportKeys scenario_env ['''', ''  '', ''sk-live-1''] [])) = 1"
    by (simp_all add: import_run_blank)
  show ?thesis
    by (intro conjI; fact w1 w2 w3 w5 w6 w7 w8 w9)
qed

section \<open>Clearing zero-balance and invalid keys\<close>

lemma foldl_delete_caught:
  "foldl (delete_caught env) s is
     = filter (\<lambda>e. entry_id e \<notin> {i \<in> set is. \<not> deleteFails env i}) s"
proof (induction "is" arbitrary: s)
  case Nil
  then show ?case by simp
next
  case (Cons i "is")
  have "foldl (delete_caught env) s (i # is)
      = filter (\<lambda>e. entry_id e \<notin> {i \<in> set is. \<not> deleteFails env i}) (delete_caught env s i)"
    by (simp only: foldl_Cons Cons.IH)
  also have "\<dots> = filter (\<lambda>e. entry_id e \<notin> {j \<in> set (i # is). \<not> deleteFails env j}) s"
    by (auto simp: delete_caught_def deleteApiKey_def intro: filter_cong)
  finally show ?case .
qed

lemma js_le0_sub:
  "js_le0 (js_sub a u) \<longleftrightarrow> a \<noteq> Undefined \<and> u \<noteq> Undefined \<and> or0 a - or0 u \<le> 0"
  by (cases a; cases u) (simp_all add: js_le0_def js_sub_def js_number_def or0_def)

lemma has_zero_balance_iff:
  "has_zero_balance env x
     \<longleftrightarrow> error (fst (fetchApiKeyData env (entry_id x) (entry_key x))) = None
         \<and> totalAllowance (fst (fetchApiKeyData env (entry_id x) (entry_key x))) \<noteq> Undefined
         \<and> orgTotalTokensUsed (fst (fetchApiKeyData env (entry_id x) (entry_key x))) \<noteq> Undefined
         \<and> remaining (fst (fetchApiKeyData env (entry_id x) (entry_key x))) \<le> 0"
  by (auto simp: has_zero_balance_def check_balance_def fetchApiKeyData_def fetchApiKeyData_try_def
      failure_def js_le0_sub remaining_def
      split: FetchOutcome.splits option.splits ApiData.splits sum.splits if_splits)

lemmas page_defs = scenario_view_def page_env_def safeKey_def load_item_def load_item_try_def
  item_failure_def pageFormatDate_def usageA_def usageB_def ok_def show_nat.simps digit_char_def

lemma scenario_ids:
  "clearInvalidKeysFromModal True (Some scenario_view) = Some [''key-1-2'', ''key-1-1'']"
  by (simp add: clearInvalidKeysFromModal_def failedKeys_def zeroBalanceKeys_def page_defs
      item_has_error_def js_le0_def js_sub_def js_number_def)

lemma scenario_loaded: "\<forall>item\<in>set scenario_view. \<not> loading item"
  by (simp add: page_defs)

lemma scenario_zero_balance:
  "fst (zero_balance_delete scenario_env [entryA, entryB, entryC]) = [entryA, entryC]"
  by (simp add: zero_balance_delete_def has_zero_balance_def check_balance_def delete_caught_def
      deleteApiKey_def scenario_defs ok_def js_le0_def js_sub_def js_number_def)

lemma null_zero_balance:
  "fst (zero_balance_delete null_env [entryA]) = []"
  by (simp add: zero_balance_delete_def has_zero_balance_def check_balance_def delete_caught_def
      deleteApiKey_def null_env_def scenario_defs ok_def js_le0_def js_sub_def js_number_def)

text \<open>
  Claim C6, as the code has it.  The route \<^verbatim>\<open>/api/keys/zero-balance/delete\<close> deletes, by a
  loop of its own, exactly the credentials whose own request succeeds with neither
  number absent and allowance minus usage at most 0, a \<^verbatim>\<open>null\<close> number counting as 0 (and
  whose deletion does not throw); it keeps every credential whose fetch is tagged with an
  error.  The page operation \<^verbatim>\<open>clearInvalidKeysFromModal\<close>, on a view in which no item is
  still loading, takes the union: it sends the ids of the items that carry an error,
  followed by the ids of the items without error, with neither number absent, whose
  allowance minus usage is at most 0, to the batch-delete route, which deletes each of
  them whose deletion does not throw.
\<close>

theorem cleanup_targets:
  "fst (zero_balance_delete env s)
     = filter (\<lambda>e. entry_id e
          \<notin> entry_id ` {x \<in> set s. has_zero_balance env x \<and> \<not> deleteFails env (entry_id x)}) s
   \<and> (has_zero_balance env x
        \<longleftrightarrow> error (fst (fetchApiKeyData env (entry_id x) (entry_key x))) = None
            \<and> totalAllowance (fst (fetchApiKeyData env (entry_id x) (entry_key x))) \<noteq> Undefined
            \<and> orgTotalTokensUsed (fst (fetchApiKeyData env (entry_id x) (entry_key x))) \<noteq> Undefined
            \<and> remaining (fst (fetchApiKeyData env (entry_id x) (entry_key x))) \<le> 0)
   \<and> (error (fst (fetchApiKeyData env (entry_id x) (entry_key x))) \<noteq> None
        \<and> distinct (map entry_id s) \<and> x \<in> set s
      \<longrightarrow> x \<in> set (fst (zero_balance_delete env s)))
   \<and> (clearInvalidKeysFromModal confirmed (Some d) = Some ids_req
        \<and> (\<forall>item\<in>set d. \<not> loading item)
      \<longrightarrow> ids_req = map item_id (filter item_has_error d)
                @ map item_id (filter (\<lambda>item. \<not> item_has_error item
                     \<and> item_totalAllowance item \<noteq> Undefined
                     \<and> item_orgTotalTokensUsed item \<noteq> Undefined
                     \<and> or0 (item_totalAllowance item) - or0 (item_orgTotalTokensUsed item) \<le> 0) d)
          \<and> clear_invalid env confirmed (Some d) s = fst (batch_delete env ids_req s)
          \<and> fst (batch_delete env ids_req s)
              = filter (\<lambda>e. entry_id e \<notin> {i \<in> set ids_req. \<not> deleteFails env i}) s)"
proof -
  have c1: "fst (zero_balance_delete env s)
     = filter (\<lambda>e. entry_id e
          \<notin> entry_id ` {x \<in> set s. has_zero_balance env x \<and> \<not> deleteFails env (entry_id x)}) s"
    unfolding zero_balance_delete_def Let_def fst_conv foldl_delete_caught
    by (rule filter_cong) auto
  note c2 = has_zero_balance_iff [of env x]
  have c3: "error (fst (fetchApiKeyData env (entry_id x) (entry_key x))) \<noteq> None
        \<and> distinct (map entry_id s) \<and> x \<in> set s
      \<longrightarrow> x \<in> set (fst (zero_balance_delete env s))"
  proof
    assume a: "error (fst (fetchApiKeyData env (entry_id x) (entry_key x))) \<noteq> None
        \<and> distinct (map entry_id s) \<and> x \<in> set s"
    then have inj: "inj_on entry_id (set s)" by (simp add: distinct_map)
    have "entry_id x \<notin> entry_id ` {y \<in> set s. has_zero_balance env y \<and> \<not> deleteFails env (entry_id y)}"
    proof
      assume "entry_id x \<in> entry_id ` {y \<in> set s. has_zero_balance env y \<and> \<not> deleteFails env (entry_id y)}"
      then obtain y where y: "y \<in> set s" "has_zero_balance env y" "entry_id y = entry_id x"
        by auto
      with inj a have "y = x" by (auto dest: inj_onD)
      with y(2) a show False by (simp add: has_zero_balance_iff)
    qed
    with a show "x \<in> set (fst (zero_balance_delete env s))"
      unfolding c1 by simp
  qed
  have c4: "clearInvalidKeysFromModal confirmed (Some d) = Some ids_req
        \<and> (\<forall>item\<in>set d. \<not> loading item)
      \<longrightarrow> ids_req = map item_id (filter item_has_error d)
                @ map item_id (filter (\<lambda>item. \<not> item_has_error item
                     \<and> item_totalAllowance item \<noteq> Undefined
                     \<and> item_orgTotalTokensUsed item \<noteq> Undefined
                     \<and> or0 (item_totalAllowance item) - or0 (item_orgTotalTokensUsed item) \<le> 0) d)
          \<and> clear_invalid env confirmed (Some d) s = fst (batch_delete env ids_req s)
          \<and> fst (batch_delete env ids_req s)
              = filter (\<lambda>e. entry_id e \<notin> {i \<in> set ids_req. \<not> deleteFails env i}) s"
    by (auto simp: clearInvalidKeysFromModal_def clear_invalid_def batch_delete_def Let_def
        failedKeys_def zeroBalanceKeys_def foldl_delete_caught js_le0_sub
        split: option.splits if_splits)
  show ?thesis
    by (intro conjI; fact c1 c2 c3 c4)
qed

theorem cleanup_targets_witness:
  "fst (zero_balance_delete scenario_env [entryA, entryB, entryC]) = [entryA, entryC]
   \<and> has_zero_balance scenario_env entryB
   \<and> entryC \<in> set (fst (zero_balance_delete scenario_env [entryA, entryB, entryC]))
   \<and> clearInvalidKeysFromModal True (Some scenario_view) = Some [''key-1-2'', ''key-1-1'']
   \<and> clear_invalid scenario_env True (Some scenario_view) [entryA, entryB, entryC] = [entryA]
   \<and> has_zero_balance null_env entryA
   \<and> fst (zero_balance_delete null_env [entryA]) = []"
proof -
  note T = cleanup_targets [where env = scenario_env and s = "[entryA, entryB, entryC]"
      and confirmed = True and d = scenario_view
      and ids_req = "[''key-1-2'', ''key-1-1'']"]
  have fb: "fst (fetchApiKeyData scenario_env (entry_id entryB) (entry_key entryB))
      = \<lparr>res_id = ''key-1-1'', res_key = ''sk-l...0002'', error = None,
        startDate = Some ''2023-11-14'', endDate = Some ''N/A'',
        orgTotalTokensUsed = Number 500, totalAllowance = Number 500, usedRatio = Number 1\<rparr>"
    and fc: "fst (fetchApiKeyData scenario_env (entry_id entryC) (entry_key entryC))
      = \<lparr>res_id = ''key-1-2'', res_key = ''sk-l...'', error = Some ''HTTP 401'',
        startDate = None, endDate = None,
        orgTotalTokensUsed = Undefined, totalAllowance = Undefined, usedRatio = Undefined\<rparr>"
    using scenario_results by simp_all
  have w1: "fst (zero_balance_delete scenario_env [entryA, entryB, entryC]) = [entryA, entryC]"
    by (rule scenario_zero_balance)
  have w2: "has_zero_balance scenario_env entryB"
    using T [where x = entryB, THEN conjunct2, THEN conjunct1]
    by (simp add: fb remaining_def or0_def)
  have h3: "error (fst (fetchApiKeyData scenario_env (entry_id entryC) (entry_key entryC))) \<noteq> None
      \<and> distinct (map entry_id [entryA, entryB, entryC]) \<and> entryC \<in> set [entryA, entryB, entryC]"
    unfolding fc by (simp add: entryA_def entryB_def entryC_def)
  have w3: "entryC \<in> set (fst (zero_balance_delete scenario_env [entryA, entryB, entryC]))"
    using T [where x = entryC, THEN conjunct2, THEN conjunct2, THEN conjunct1] h3 by (rule mp)
  have w4: "clearInvalidKeysFromModal True (Some scenario_view) = Some [''key-1-2'', ''key-1-1'']"
    by (rule scenario_ids)
  have h4: "clearInvalidKeysFromModal True (Some scenario_view) = Some [''key-1-2'', ''key-1-1'']
      \<and> (\<forall>item\<in>set scenario_view. \<not> loading item)"
    using w4 scenario_loaded by (rule conjI)
  from T [where x = entryC, THEN conjunct2, THEN conjunct2, THEN conjunct2] h4
  have R: "[''key-1-2'', ''key-1-1''] = map item_id (filter item_has_error scenario_view)
                @ map item_id (filter (\<lambda>item. \<not> item_has_error item
                     \<and> item_totalAllowance item \<noteq> Undefined
                     \<and> item_orgTotalTokensUsed item \<noteq> Undefined
                     \<and> or0 (item_totalAllowance item) - or0 (item_orgTotalTokensUsed item) \<le> 0)
                   scenario_view)
          \<and> clear_invalid scenario_env True (Some scenario_view) [entryA, entryB, entryC]
              = fst (batch_delete scenario_env [''key-1-2'', ''key-1-1''] [entryA, entryB, entryC])
          \<and> fst (batch_delete scenario_env [''key-1-2'', ''key-1-1''] [entryA, entryB, entryC])
              = filter (\<lambda>e. entry_id e
                   \<notin> {i \<in> set [''key-1-2'', ''key-1-1'']. \<not> deleteFails scenario_env i})
                  [entryA, entryB, entryC]"
    by (rule mp)
  from R [THEN conjunct2, THEN conjunct1] R [THEN conjunct2, THEN conjunct2]
  have "clear_invalid scenario_env True (Some scenario_view) [entryA, entryB, entryC]
      = filter (\<lambda>e. entry_id e
                   \<notin> {i \<in> set [''key-1-2'', ''key-1-1'']. \<not> deleteFails scenario_env i})
                  [entryA, entryB, entryC]"
    by (rule trans)
  then have w5: "clear_invalid scenario_env True (Some scenario_view) [entryA, entryB, entryC]
      = [entryA]"
    by (simp add: scenario_env_def entryA_def entryB_def entryC_def)
  have fn: "fst (fetchApiKeyData null_env (entry_id entryA) (entry_key entryA))
      = \<lparr>res_id = ''key-1-0'', res_key = ''sk-l...0001'', error = None,
        startDate = Some ''N/A'', endDate = Some ''N/A'',
        orgTotalTokensUsed = Null, totalAllowance = Null, usedRatio = Null\<rparr>"
    by (simp add: null_env_def scenario_defs fetch_defs)
  have w6: "has_zero_balance null_env entryA"
    using cleanup_targets [where env = null_env and x = entryA, THEN conjunct2, THEN conjunct1]
    by (simp add: fn remaining_def or0_def)
  have w7: "fst (zero_balance_delete null_env [entryA]) = []"
    by (rule null_zero_balance)
  show ?thesis
    by (intro conjI; fact w1 w2 w3 w4 w5 w6 w7)
qed

text \<open>
  Claim C6 as stated fails on the route: credential C is answered with HTTP 401, so it is
  in the invalid class, and the route keeps it.
\<close>

theorem zero_balance_delete_counterexample:
  "error (fst (fetchApiKeyData scenario_env (entry_id entryC) (entry_key entryC))) = Some ''HTTP 401''
   \<and> entryC \<in> set (fst (zero_balance_delete scenario_env [entryA, entryB, entryC]))
   \<and> fst (zero_balance_delete scenario_env [entryA, entryB, entryC]) = [entryA, entryC]"
  by (simp add: scenario_zero_balance) (simp add: scenario_defs fetch_defs)

section \<open>Requests in flight\<close>

lemma in_flight_append:
  "in_flight n (es @ fs) = in_flight n es @ in_flight (pending n es) fs"
  by (induction n es rule: in_flight.induct) auto

lemma in_flight_at_display_append:
  "in_flight_at_display n (es @ fs)
     = in_flight_at_display n es @ in_flight_at_display (pending n es) fs"
  by (induction n es rule: in_flight.induct) auto

lemma pending_append: "pending n (es @ fs) = pending (pending n es) fs"
  by (induction n es rule: in_flight.induct) auto

lemma dispatch_counts:
  "set (in_flight n (map Dispatch xs)) \<subseteq> {n..n + length xs}
   \<and> pending n (map Dispatch xs) = n + length xs
   \<and> in_flight_at_display n (map Dispatch xs) = []"
proof (induction xs arbitrary: n)
  case Nil
  then show ?case by simp
next
  case (Cons x xs)
  from Cons [of "n + 1"] show ?case by auto
qed

lemma settle_counts:
  "set (in_flight n (map Settle xs)) \<subseteq> {..n}
   \<and> pending n (map Settle xs) = n - length xs
   \<and> in_flight_at_display n (map Settle xs) = []"
proof (induction xs arbitrary: n)
  case Nil
  then show ?case by simp
next
  case (Cons x xs)
  from Cons [of "n - 1"] show ?case by auto
qed

lemma promise_all_counts:
  "(\<forall>c\<in>set (in_flight 0 (promise_all_events rk is)). c \<le> length is)
   \<and> pending 0 (promise_all_events rk is) = 0
   \<and> in_flight_at_display 0 (promise_all_events rk is) = []"
proof -
  let ?d = "map Dispatch is" and ?s = "map Settle (sort_key rk is)"
  have d: "set (in_flight 0 ?d) \<subseteq> {0..length is}" "pending 0 ?d = length is"
    "in_flight_at_display 0 ?d = []"
    using dispatch_counts [of 0 "is"] by simp_all
  have s: "set (in_flight (length is) ?s) \<subseteq> {..length is}"
    "pending (length is) ?s = 0"
    "in_flight_at_display (length is) ?s = []"
    using settle_counts [of "length is" "sort_key rk is"] by simp_all
  have "in_flight 0 (promise_all_events rk is) = in_flight 0 ?d @ in_flight (length is) ?s"
    by (simp add: promise_all_events_def in_flight_append d(2))
  moreover have "pending 0 (promise_all_events rk is) = 0"
    by (simp add: promise_all_events_def pending_append d(2) s(2))
  moreover have "in_flight_at_display 0 (promise_all_events rk is) = []"
    by (simp add: promise_all_events_def in_flight_at_display_append d s)
  ultimately show ?thesis using d(1) s(1) by auto
qed

lemma quiet_batch:
  assumes "quiet es" and "length is \<le> concurrency"
  shows "quiet (es @ promise_all_events rk is @ [Display d])"
proof -
  let ?p = "promise_all_events rk is"
  have p: "\<forall>c\<in>set (in_flight 0 ?p). c \<le> length is" "pending 0 ?p = 0"
    "in_flight_at_display 0 ?p = []"
    using promise_all_counts [of rk "is"] by simp_all
  have e: "pending 0 es = 0" using assms(1) by (simp add: quiet_def)
  have 1: "in_flight 0 (es @ ?p @ [Display d]) = in_flight 0 es @ in_flight 0 ?p @ [0]"
    by (simp add: in_flight_append e p(2))
  have 2: "in_flight_at_display 0 (es @ ?p @ [Display d]) = in_flight_at_display 0 es @ [0]"
    by (simp add: in_flight_at_display_append e p)
  have 3: "pending 0 (es @ ?p @ [Display d]) = 0"
    by (simp add: pending_append e p(2))
  show ?thesis
    unfolding quiet_def 1 2 3 using assms p(1) by (auto simp: quiet_def)
qed

lemma load_batches_quiet:
  "quiet (events st) \<Longrightarrow> quiet (events (load_batches env keys i st))"
proof (induction env keys i st rule: load_batches.induct)
  case (1 env keys i st)
  show ?case
  proof (cases "i < length keys")
    case True
    let ?batch = "take concurrency (drop i keys)"
    let ?d = "foldl put_result (allData_data st) (map (load_item env) ?batch)"
    let ?st = "\<lparr>allData_data = ?d, allData_totals = page_totals ?d,
              results = results st @ map (load_item env) ?batch,
              completedCount = completedCount st + length (map (load_item env) ?batch),
              events = events st @ promise_all_events (settles env) (map safe_id ?batch)
                         @ [Display ?d]\<rparr>"
    have "quiet (events ?st)"
      using quiet_batch [OF "1.prems", of "map safe_id ?batch" "settles env" ?d] by simp
    then have "quiet (events (load_batches env keys (i + concurrency) ?st))"
      using "1.IH" [OF True refl refl refl] by simp
    then show ?thesis
      using True by (subst load_batches.simps) (simp add: Let_def)
  next
    case False
    then show ?thesis using "1.prems" by (subst load_batches.simps) simp
  qed
qed

lemma load_batches_results:
  "results (load_batches env keys i st) = results st @ map (load_item env) (drop i keys)"
proof (induction env keys i st rule: load_batches.induct)
  case (1 env keys i st)
  show ?case
  proof (cases "i < length keys")
    case True
    let ?batch = "take concurrency (drop i keys)"
    let ?d = "foldl put_result (allData_data st) (map (load_item env) ?batch)"
    let ?st = "\<lparr>allData_data = ?d, allData_totals = page_totals ?d,
              results = results st @ map (load_item env) ?batch,
              completedCount = completedCount st + length (map (load_item env) ?batch),
              events = events st @ promise_all_events (settles env) (map safe_id ?batch)
                         @ [Display ?d]\<rparr>"
    have "results (load_batches env keys (i + concurrency) ?st)
        = results ?st @ map (load_item env) (drop (i + concurrency) keys)"
      using "1.IH" [OF True refl refl refl] by simp
    also have "\<dots> = results st @ map (load_item env) (?batch @ drop concurrency (drop i keys))"
      by (simp add: add.commute)
    also have "\<dots> = results st @ map (load_item env) (drop i keys)"
      by (simp only: append_take_drop_id)
    finally show ?thesis
      using True by (subst load_batches.simps) (simp add: Let_def)
  next
    case False
    then show ?thesis by (subst load_batches.simps) simp
  qed
qed

lemma seven_counts:
  "in_flight 0 (events (loadData page_env seven_keys))
     = [0, 1, 2, 3, 4, 5, 4, 3, 2, 1, 0, 0, 1, 2, 1, 0, 0]
   \<and> in_flight_at_display 0 (events (loadData page_env seven_keys)) = [0, 0, 0]"
  by (simp add: loadData_def load_batches.simps seven_keys_def concurrency_def Let_def
      promise_all_events_def safeKey_def page_env_def)

lemma six_counts:
  "in_flight 0 (getAggregatedData_events scenario_env six_entries)
     = [1, 2, 3, 4, 5, 6, 5, 4, 3, 2, 1, 0]"
  by (simp add: getAggregatedData_events_def six_entries_def promise_all_events_def scenario_env_def)

text \<open>
  Claim C3, as the code has it.  The page script \<^verbatim>\<open>loadUsageDataProgressively\<close> works through
  the listed keys in batches of 5: after any event of its trace at most 5 requests are in
  flight, every \<^verbatim>\<open>displayData\<close> happens with no request in flight, so the results of a batch
  are shown only when every request of the batch has settled (with data or with an error),
  and it returns one result per key in the order of the keys.  The server function
  \<^verbatim>\<open>getAggregatedData\<close> does not batch: it sends the requests for all credentials before any
  settles, so that as many requests as there are credentials are in flight.
\<close>

theorem loader_in_flight:
  "(\<forall>c\<in>set (in_flight 0 (events (loadData env keys))). c \<le> 5)
   \<and> (\<forall>c\<in>set (in_flight_at_display 0 (events (loadData env keys))). c = 0)
   \<and> results (loadData env keys) = map (load_item env) keys
   \<and> (keyEntries \<noteq> []
      \<longrightarrow> length keyEntries \<in> set (in_flight 0 (getAggregatedData_events senv keyEntries)))"
proof -
  have "quiet [Display (map placeholder keys)]" by (simp add: quiet_def)
  then have "quiet (events (loadData env keys))"
    unfolding loadData_def Let_def by (intro load_batches_quiet) simp
  then have c1: "\<forall>c\<in>set (in_flight 0 (events (loadData env keys))). c \<le> 5"
    and c2: "\<forall>c\<in>set (in_flight_at_display 0 (events (loadData env keys))). c = 0"
    by (simp_all add: quiet_def concurrency_def)
  have c3: "results (loadData env keys) = map (load_item env) keys"
    by (simp add: loadData_def Let_def load_batches_results)
  have c4: "keyEntries \<noteq> []
      \<longrightarrow> length keyEntries \<in> set (in_flight 0 (getAggregatedData_events senv keyEntries))"
  proof
    assume ne: "keyEntries \<noteq> []"
    let ?d = "map Dispatch (map entry_id keyEntries)"
    have "ks \<noteq> [] \<Longrightarrow> pending n (map Dispatch ks) \<in> set (in_flight n (map Dispatch ks))"
      for ks n
    proof (induction ks arbitrary: n)
      case Nil
      then show ?case by simp
    next
      case (Cons k ks)
      then show ?case by (cases ks) auto
    qed
    from this [of "map entry_id keyEntries" 0] ne
    have "length keyEntries \<in> set (in_flight 0 ?d)"
      using dispatch_counts [of 0 "map entry_id keyEntries"] by simp
    then show "length keyEntries \<in> set (in_flight 0 (getAggregatedData_events senv keyEntries))"
      using ne by (simp add: getAggregatedData_events_def promise_all_events_def in_flight_append)
  qed
  show ?thesis
    by (intro conjI; fact c1 c2 c3 c4)
qed

theorem loader_in_flight_witness:
  "list_all (\<lambda>c. c \<le> 5) (in_flight 0 (events (loadData page_env seven_keys)))
   \<and> list_all (\<lambda>c. c = 0) (in_flight_at_display 0 (events (loadData page_env seven_keys)))
   \<and> in_flight 0 (events (loadData page_env seven_keys))
       = [0, 1, 2, 3, 4, 5, 4, 3, 2, 1, 0, 0, 1, 2, 1, 0, 0]
   \<and> in_flight_at_display 0 (events (loadData page_env seven_keys)) = [0, 0, 0]
   \<and> length (results (loadData page_env seven_keys)) = 7
   \<and> 6 \<in> set (in_flight 0 (getAggregatedData_events scenario_env six_entries))"
proof -
  note T = loader_in_flight [where env = page_env and keys = seven_keys
      and keyEntries = six_entries and senv = scenario_env]
  have w1: "list_all (\<lambda>c. c \<le> 5) (in_flight 0 (events (loadData page_env seven_keys)))"
    using T [THEN conjunct1] by (simp only: list_all_iff)
  have w2: "list_all (\<lambda>c. c = 0) (in_flight_at_display 0 (events (loadData page_env seven_keys)))"
    using T [THEN conjunct2, THEN conjunct1] by (simp only: list_all_iff)
  have w3: "in_flight 0 (events (loadData page_env seven_keys))
       = [0, 1, 2, 3, 4, 5, 4, 3, 2, 1, 0, 0, 1, 2, 1, 0, 0]"
    and w4: "in_flight_at_display 0 (events (loadData page_env seven_keys)) = [0, 0, 0]"
    using seven_counts by simp_all
  have "results (loadData page_env seven_keys) = map (load_item page_env) seven_keys"
    by (rule T [THEN conjunct2, THEN conjunct2, THEN conjunct1])
  then have w5: "length (results (loadData page_env seven_keys)) = 7"
    by (simp add: seven_keys_def)
  have ne: "six_entries \<noteq> []" by (simp add: six_entries_def)
  have "length six_entries \<in> set (in_flight 0 (getAggregatedData_events scenario_env six_entries))"
    using T [THEN conjunct2, THEN conjunct2, THEN conjunct2] ne by (rule mp)
  moreover have "length six_entries = 6" by (simp add: six_entries_def)
  ultimately have w6: "6 \<in> set (in_flight 0 (getAggregatedData_events scenario_env six_entries))"
    by simp
  show ?thesis
    by (intro conjI; fact w1 w2 w3 w4 w5 w6)
qed

text \<open>
  Claim C3 as stated fails for \<^verbatim>\<open>getAggregatedData\<close>: with six stored credentials, six
  requests are in flight.
\<close>

theorem getAggregatedData_in_flight_counterexample:
  "length six_entries = 6
   \<and> in_flight 0 (getAggregatedData_events scenario_env six_entries)
       = [1, 2, 3, 4, 5, 6, 5, 4, 3, 2, 1, 0]
   \<and> 6 \<in> set (in_flight 0 (getAggregatedData_events scenario_env six_entries))
   \<and> \<not> (6::nat) \<le> 5"
  by (simp add: six_counts) (simp add: six_entries_def)

section \<open>Where the secret goes\<close>

lemma list_keys_factors:
  "list_keys s = map (\<lambda>(i, n, t, c, m). \<lparr>safe_id = i, safe_name = n, safe_note = t,
                          safe_createdAt = c, masked = m\<rparr>)
       (map (\<lambda>e. (entry_id e, entry_name e, entry_note e, createdAt e, maskedKey (entry_key e))) s)"
  by (simp add: list_keys_def)

lemma list_keys_masked_only:
  assumes "map (\<lambda>e. (entry_id e, entry_name e, entry_note e, createdAt e, maskedKey (entry_key e))) s
      = map (\<lambda>e. (entry_id e, entry_name e, entry_note e, createdAt e, maskedKey (entry_key e))) s'"
  shows "list_keys s = list_keys s'"
  by (simp only: list_keys_factors [of s] list_keys_factors [of s'] assms)

lemma balance_report_key:
  assumes "item \<in> set keysWithBalance"
    and "find (\<lambda>e. entry_id e = res_id item) keyEntries = Some originalEntry"
  shows "entry_key originalEntry \<in> set (balance_report keyEntries keysWithBalance)"
proof -
  have "keysWithBalance \<noteq> []" using assms(1) by auto
  then show ?thesis
    using assms by (force simp: balance_report_def)
qed

lemma fetch_result_forms:
  "(\<exists>m. fst (fetchApiKeyData env i k) = failure i k m
         \<and> (m = ''Failed to fetch'' \<or> m = ''Invalid API response structure''
             \<or> (\<exists>resp. remote env i k = Resolved resp \<and> m = ''HTTP '' @ show_nat (status resp))))
   \<or> (\<exists>resp u su. remote env i k = Resolved resp \<and> body_json resp = Some (JsonDoc (Some u))
         \<and> usage_standard u = Some su
         \<and> fst (fetchApiKeyData env i k)
             = \<lparr>res_id = i, res_key = maskedKey k, error = None,
                startDate = Some (formatDate env (usage_startDate u)),
                endDate = Some (formatDate env (usage_endDate u)),
                orgTotalTokensUsed = std_orgTotalTokensUsed su,
                totalAllowance = std_totalAllowance su,
                usedRatio = std_usedRatio su\<rparr>)"
  by (auto simp: fetchApiKeyData_def fetchApiKeyData_try_def
      split: FetchOutcome.splits option.splits ApiData.splits sum.splits)

lemma fetch_console_forms:
  "snd (fetchApiKeyData env i k) = []
   \<or> (\<exists>resp body. remote env i k = Resolved resp \<and> body_text resp = Some body
         \<and> snd (fetchApiKeyData env i k)
             = [''Error fetching data for key ID '' @ i @ '': '' @ show_nat (status resp)
                  @ '' '' @ body])
   \<or> (\<exists>msg. (remote env i k = Rejected msg \<or> msg = ''body unreadable''
               \<or> msg = ''body is not JSON'' \<or> msg = ''Cannot read properties of null'')
         \<and> snd (fetchApiKeyData env i k) = [''Failed to process key ID '' @ i @ '': '' @ msg])"
  by (auto simp: fetchApiKeyData_def fetchApiKeyData_try_def
      split: FetchOutcome.splits option.splits ApiData.splits sum.splits)

lemma view_data:
  assumes "fst (getAggregatedData env keyEntries) = Inr v"
  shows "data v = map (\<lambda>entry. fst (fetchApiKeyData env (entry_id entry) (entry_key entry))) keyEntries"
    and "update_time v = nowFormatted env" and "total_count v = length keyEntries"
  using assms by (auto simp: getAggregatedData_def Let_def comp_def split: if_splits)

lemma api_data_console_eq:
  "api_data_console env keyEntries
     = (if keyEntries = [] then [''No API keys found in storage. Please import keys first.'']
        else concat (map (\<lambda>entry. snd (fetchApiKeyData env (entry_id entry) (entry_key entry)))
                       keyEntries)
             @ balance_report keyEntries
                 (filter (\<lambda>r. remaining r > 0)
                    (filter (\<lambda>r. error r = None)
                       (map (\<lambda>entry. fst (fetchApiKeyData env (entry_id entry) (entry_key entry)))
                          keyEntries))))"
proof -
  have "filter (\<lambda>x. \<not> has_error x \<and> 0 < remaining x)
          (map (\<lambda>entry. fst (fetchApiKeyData env (entry_id entry) (entry_key entry))) keyEntries)
      = filter (\<lambda>x. error x = None \<and> 0 < remaining x)
          (map (\<lambda>entry. fst (fetchApiKeyData env (entry_id entry) (entry_key entry))) keyEntries)"
    by (rule filter_cong) (auto simp: has_error_fetch)
  then show ?thesis
    by (simp add: api_data_console_def getAggregatedData_def Let_def comp_def)
qed

lemma find_SomeD: "find P xs = Some x \<Longrightarrow> x \<in> set xs \<and> P x"
  by (induction xs) (auto split: if_splits)

lemma balance_report_lines:
  assumes "l \<in> set (balance_report keyEntries kwb)"
  shows "l \<in> {CHR 0x0A # replicate 80 CHR ''='', ''API keys with remaining balance above 0:'',
         replicate 80 CHR ''-'', replicate 80 CHR ''='' @ [CHR 0x0A],
         ''no API key has remaining balance above 0''}
     \<or> (\<exists>e\<in>set keyEntries. \<exists>r\<in>set kwb. entry_id e = res_id r \<and> l = entry_key e)"
proof (cases "length kwb > 0")
  case False
  then show ?thesis using assms by (simp add: balance_report_def)
next
  case True
  then have "balance_report keyEntries kwb
      = [CHR 0x0A # replicate 80 CHR ''='', ''API keys with remaining balance above 0:'',
         replicate 80 CHR ''-'']
        @ concat (map (\<lambda>item. case find (\<lambda>e. entry_id e = res_id item) keyEntries of
                                 None \<Rightarrow> [] | Some originalEntry \<Rightarrow> [entry_key originalEntry])
                      kwb)
        @ [replicate 80 CHR ''='' @ [CHR 0x0A]]"
    by (simp only: balance_report_def if_True)
  with assms consider
    (frame) "l \<in> {CHR 0x0A # replicate 80 CHR ''='', ''API keys with remaining balance above 0:'',
         replicate 80 CHR ''-'', replicate 80 CHR ''='' @ [CHR 0x0A]}"
    | (key) "l \<in> set (concat (map (\<lambda>item. case find (\<lambda>e. entry_id e = res_id item) keyEntries of
                                 None \<Rightarrow> [] | Some originalEntry \<Rightarrow> [entry_key originalEntry])
                      kwb))"
    by (simp only: set_append set_simps Un_iff insert_iff empty_iff) blast
  then show ?thesis
  proof cases
    case frame
    then show ?thesis by blast
  next
    case key
    then obtain r where r: "r \<in> set kwb"
      and l: "l \<in> set (case find (\<lambda>e. entry_id e = res_id r) keyEntries of
                                 None \<Rightarrow> [] | Some originalEntry \<Rightarrow> [entry_key originalEntry])"
      by auto
    from l obtain e where "find (\<lambda>e. entry_id e = res_id r) keyEntries = Some e" "l = entry_key e"
      by (cases "find (\<lambda>e. entry_id e = res_id r) keyEntries") auto
    with find_SomeD [of "\<lambda>e. entry_id e = res_id r" keyEntries e] r show ?thesis by blast
  qed
qed

lemma import_entry_outputs:
  assumes "import_entry env i raw (s, t, lg) = (s', t', lg')"
  shows "set (duplicateKeys t') \<subseteq> set (duplicateKeys t) \<union> {maskedKey (trim raw)}
     \<and> set lg' \<subseteq> set lg \<union> {''Skipped duplicate key: '' @ prefixKey (trim raw),
                             ''Failed to import key '' @ show_nat i @ '':''}"
  using assms by (auto simp: import_entry_def Let_def split: if_splits)

lemma import_loop_outputs:
  assumes "import_loop env i keys (s, t, lg) = (s', t', lg')"
  shows "set (duplicateKeys t') \<subseteq> set (duplicateKeys t) \<union> (\<lambda>raw. maskedKey (trim raw)) ` set keys
     \<and> set lg' \<subseteq> set lg \<union> (\<lambda>raw. ''Skipped duplicate key: '' @ prefixKey (trim raw)) ` set keys
                    \<union> (\<lambda>j. ''Failed to import key '' @ show_nat j @ '':'') ` {i..<i + length keys}"
proof -
  define m where "m = (\<lambda>raw. maskedKey (trim raw))"
  define sk where "sk = (\<lambda>raw. ''Skipped duplicate key: '' @ prefixKey (trim raw))"
  define fl where "fl = (\<lambda>j. ''Failed to import key '' @ show_nat j @ '':'')"
  have step: "set (duplicateKeys t1) \<subseteq> set (duplicateKeys t0) \<union> {m raw}
      \<and> set lg1 \<subseteq> set lg0 \<union> {sk raw, fl j}"
    if "import_entry env j raw (s0, t0, lg0) = (s1, t1, lg1)" for j raw s0 t0 lg0 s1 t1 lg1
    using import_entry_outputs [OF that] by (simp add: m_def sk_def fl_def)
  have "set (duplicateKeys t') \<subseteq> set (duplicateKeys t) \<union> m ` set keys
     \<and> set lg' \<subseteq> set lg \<union> sk ` set keys \<union> fl ` {i..<i + length keys}"
    using assms
  proof (induction keys arbitrary: i s t lg)
    case Nil
    then show ?case by simp
  next
    case (Cons raw keys)
    obtain s1 t1 lg1 where one: "import_entry env i raw (s, t, lg) = (s1, t1, lg1)"
      by (cases "import_entry env i raw (s, t, lg)") auto
    with Cons.prems have rest: "import_loop env (i + 1) keys (s1, t1, lg1) = (s', t', lg')"
      by simp
    have sub: "fl ` {i + 1..<i + 1 + length keys} \<subseteq> fl ` {i..<i + length (raw # keys)}"
      by (intro image_mono) auto
    have here: "fl i \<in> fl ` {i..<i + length (raw # keys)}"
      by (intro imageI) auto
    have keys: "m ` set (raw # keys) = insert (m raw) (m ` set keys)"
      "sk ` set (raw # keys) = insert (sk raw) (sk ` set keys)" by simp_all
    from step [OF one] Cons.IH [OF rest] sub here show ?case
      unfolding keys by blast
  qed
  then show ?thesis by (simp only: m_def sk_def fl_def)
qed

lemma batchImportKeys_outputs:
  "set (duplicateKeys (fst (snd (batchImportKeys env keys s))))
     \<subseteq> (\<lambda>raw. maskedKey (trim raw)) ` set keys
   \<and> set (snd (snd (batchImportKeys env keys s)))
     \<subseteq> (\<lambda>raw. ''Skipped duplicate key: '' @ prefixKey (trim raw)) ` set keys
       \<union> (\<lambda>j. ''Failed to import key '' @ show_nat j @ '':'') ` {..<length keys}"
proof -
  obtain s' t' lg' where r: "batchImportKeys env keys s = (s', t', lg')"
    by (cases "batchImportKeys env keys s") auto
  from import_loop_outputs [OF r [unfolded batchImportKeys_def]] show ?thesis
    by (simp add: r atLeast0LessThan)
qed

lemma duplicate_group_forms:
  assumes "g \<in> set (findDuplicateKeys s)"
  shows "(\<exists>e\<in>set s. dup_key g = maskedKey (entry_key e))
     \<and> set (ids g) \<subseteq> entry_id ` set s \<and> count g = length (ids g)"
proof -
  from findDuplicateKeys_groups [OF assms] obtain k where
    k: "dup_key g = maskedKey k" "ids g = map entry_id (filter (\<lambda>e. entry_key e = k) s)"
      "count g = length (ids g)" "length (ids g) > 1"
    by blast
  then have "filter (\<lambda>e. entry_key e = k) s \<noteq> []" by auto
  then obtain e where "e \<in> set s" "entry_key e = k"
    by (auto simp: filter_empty_conv)
  with k show ?thesis by auto
qed

lemma duplicates_clean_forms:
  "snd (duplicates_clean env s) = (500, CleanFailed ''kv.list failed'')
   \<or> snd (duplicates_clean env s) = (500, CleanFailed ''kv.delete failed'')
   \<or> (\<exists>n. snd (duplicates_clean env s)
          = (200, Cleaned n (''Successfully deleted '' @ show_nat n @ '' duplicate keys'')))"
proof -
  have de: "snd (delete_each env is st n) = Inl m \<Longrightarrow> m = ''kv.delete failed''" for "is" st n m
    by (induction "is" arbitrary: st n) (auto split: if_splits)
  have cg: "snd (clean_groups env gs st n) = Inl m \<Longrightarrow> m = ''kv.delete failed''" for gs st n m
  proof (induction gs arbitrary: st n)
    case Nil
    then show ?case by simp
  next
    case (Cons g gs)
    then show ?case
      using de [of "drop 1 (ids g)" st n]
      by (cases "delete_each env (drop 1 (ids g)) st n") (auto split: sum.splits)
  qed
  show ?thesis
    using cg [of "findDuplicateKeys s" s 0]
    by (cases "clean_groups env (findDuplicateKeys s) s 0")
      (auto simp: duplicates_clean_def split: sum.splits)
qed

lemma zero_balance_console_forms:
  assumes "l \<in> set (zero_balance_console env s)"
  shows "\<exists>e\<in>set s. (\<exists>msg. check_balance env e = Inl msg
             \<and> l = ''Failed to check balance for key '' @ entry_id e @ '': '' @ msg)
           \<or> l = ''Failed to delete key '' @ entry_id e @ '':''"
proof -
  from assms consider
    (check) "l \<in> set (concat (map (\<lambda>keyEntry. case check_balance env keyEntry of
                    Inl msg \<Rightarrow> [''Failed to check balance for key '' @ entry_id keyEntry @ '': '' @ msg]
                  | Inr push \<Rightarrow> []) s))"
    | (delete) "l \<in> set (map (\<lambda>i. ''Failed to delete key '' @ i @ '':'')
         (filter (deleteFails env) (map entry_id (filter (has_zero_balance env) s))))"
    by (auto simp: zero_balance_console_def)
  then show ?thesis
  proof cases
    case check
    then obtain e where e: "e \<in> set s"
      and l: "l \<in> set (case check_balance env e of
                    Inl msg \<Rightarrow> [''Failed to check balance for key '' @ entry_id e @ '': '' @ msg]
                  | Inr push \<Rightarrow> [])"
      by auto
    from l obtain msg where "check_balance env e = Inl msg"
      "l = ''Failed to check balance for key '' @ entry_id e @ '': '' @ msg"
      by (cases "check_balance env e") auto
    with e show ?thesis by blast
  next
    case delete
    then obtain e where "e \<in> set s" "l = ''Failed to delete key '' @ entry_id e @ '':''"
      by auto
    then show ?thesis by blast
  qed
qed

lemma check_balance_messages:
  assumes "check_balance env e = Inl msg"
  shows "remote env (entry_id e) (entry_key e) = Rejected msg
     \<or> msg = ''body is not JSON'' \<or> msg = ''Cannot read properties of null''"
  using assms
  by (auto simp: check_balance_def
      split: FetchOutcome.splits option.splits ApiData.splits if_splits)

lemma batch_delete_outputs:
  "snd (batch_delete env ids_req s) = snd (batch_delete env ids_req s')"
  by (simp add: batch_delete_def Let_def)

lemma batch_delete_console_lines:
  "set (batch_delete_console env ids_req) \<subseteq> (\<lambda>i. ''Failed to delete key '' @ i @ '':'') ` set ids_req"
  by (auto simp: batch_delete_console_def)

lemma zero_balance_body:
  "snd (zero_balance_delete env s)
     = \<lparr>zb_deletedCount = zb_deletedCount (snd (zero_balance_delete env s)),
        totalZeroBalance = totalZeroBalance (snd (zero_balance_delete env s)),
        zb_message = ''Successfully deleted ''
          @ show_nat (zb_deletedCount (snd (zero_balance_delete env s))) @ '' zero balance keys''\<rparr>"
  by (simp add: zero_balance_delete_def Let_def)

lemma delete_key_forms:
  "snd (delete_key env i s) = (400, Failed ''Key ID required'')
   \<or> snd (delete_key env i s) = (500, Failed ''kv.delete failed'')
   \<or> snd (delete_key env i s) = (200, Done)"
  by (simp add: delete_key_def)

lemma add_key_forms:
  "snd (add_key env k nm s) = (400, Failed ''Key is required'')
   \<or> snd (add_key env k nm s) = (500, Failed ''kv.set failed'')
   \<or> snd (add_key env k nm s) = (200, DoneWithId (''key-'' @ show_nat (idTime env 0)))"
  by (simp add: add_key_def Let_def)

lemma update_note_forms:
  "snd (update_note env i nt s) = (400, Failed ''Key ID required'')
   \<or> snd (update_note env i nt s) = (404, Failed ''Key not found'')
   \<or> snd (update_note env i nt s) = (500, Failed ''kv.set failed'')
   \<or> snd (update_note env i nt s) = (200, DoneWithNote nt)"
  by (simp add: update_note_def split: option.splits)

lemma usage_route_forms:
  "usage_route env i s = (400, UsageError ''Key ID required'' None)
   \<or> usage_route env i s = (404, UsageError ''Key not found'' None)
   \<or> (\<exists>e msg. getApiKey i s = Some e
         \<and> (remote env i (entry_key e) = Rejected msg \<or> msg = ''body unreadable''
             \<or> msg = ''body is not JSON'')
         \<and> usage_route env i s = (500, UsageError msg None))
   \<or> (\<exists>e resp errorText. getApiKey i s = Some e \<and> remote env i (entry_key e) = Resolved resp
         \<and> body_text resp = Some errorText
         \<and> usage_route env i s
             = (status resp, UsageError (''Factory.ai API error: '' @ show_nat (status resp))
                  (Some errorText)))
   \<or> (\<exists>e resp usageData. getApiKey i s = Some e \<and> remote env i (entry_key e) = Resolved resp
         \<and> body_json resp = Some usageData
         \<and> usage_route env i s = (200, UsageData usageData))"
  by (auto simp: usage_route_def split: option.splits FetchOutcome.splits)

text \<open>
  Claim C10, as the code has it.  Outside the route \<^verbatim>\<open>/api/keys/:id/full\<close>, which returns
  the stored secret, and the balance report of the aggregation, which prints the stored
  secret of every credential whose fetch succeeded with a remaining balance above 0, no
  route on the store returns a secret to the caller or writes one to the console other
  than in its masked form (first 4, dots, last 4) or its prefix form (first 4, dots).
  The key listing returns the masked form: two stores that agree on ids, names, notes,
  creation times and masked secrets list the same.  The view of the aggregation consists
  of the fetch results, which carry the masked form when the fetch succeeded and the
  prefix form when it failed, next to the id, an error text made of fixed words and the
  status, and the dates and numbers of the remote answer; its console has, before the
  report, only lines made of the id and of what the remote side sent.  The import
  returns counters and masked forms and prints prefix forms and indices; the duplicate
  groups carry the masked form and ids; the routes that delete, add or annotate keys
  return counters, ids, the note sent and fixed messages, and print ids; the usage route
  returns what the remote side sent.
\<close>

theorem secret_exposure:
  "(map (\<lambda>e. (entry_id e, entry_name e, entry_note e, createdAt e, maskedKey (entry_key e))) s
      = map (\<lambda>e. (entry_id e, entry_name e, entry_note e, createdAt e, maskedKey (entry_key e))) s'
      \<longrightarrow> list_keys s = list_keys s')
   \<and> map masked (list_keys s) = map (\<lambda>e. maskedKey (entry_key e)) s
   \<and> (fst (getAggregatedData env keyEntries) = Inr v
      \<longrightarrow> data v = map (\<lambda>entry. fst (fetchApiKeyData env (entry_id entry) (entry_key entry)))
                     keyEntries
          \<and> update_time v = nowFormatted env \<and> total_count v = length keyEntries)
   \<and> ((\<exists>m. fst (fetchApiKeyData env i k) = failure i k m
          \<and> (m = ''Failed to fetch'' \<or> m = ''Invalid API response structure''
              \<or> (\<exists>resp. remote env i k = Resolved resp \<and> m = ''HTTP '' @ show_nat (status resp))))
        \<or> (\<exists>resp u su. remote env i k = Resolved resp \<and> body_json resp = Some (JsonDoc (Some u))
          \<and> usage_standard u = Some su
          \<and> fst (fetchApiKeyData env i k)
              = \<lparr>res_id = i, res_key = maskedKey k, error = None,
                 startDate = Some (formatDate env (usage_startDate u)),
                 endDate = Some (formatDate env (usage_endDate u)),
                 orgTotalTokensUsed = std_orgTotalTokensUsed su,
                 totalAllowance = std_totalAllowance su,
                 usedRatio = std_usedRatio su\<rparr>))
   \<and> res_key (failure i k m) = prefixKey k
   \<and> (error (fst (fetchApiKeyData env i k)) = None
        \<longrightarrow> res_key (fst (fetchApiKeyData env i k)) = maskedKey k)
   \<and> (error (fst (fetchApiKeyData env i k)) \<noteq> None
        \<longrightarrow> res_key (fst (fetchApiKeyData env i k)) = prefixKey k)
   \<and> api_data_console env keyEntries
       = (if keyEntries = [] then [''No API keys found in storage. Please import keys first.'']
          else concat (map (\<lambda>entry. snd (fetchApiKeyData env (entry_id entry) (entry_key entry)))
                         keyEntries)
               @ balance_report keyEntries
                   (filter (\<lambda>r. remaining r > 0)
                      (filter (\<lambda>r. error r = None)
                         (map (\<lambda>entry. fst (fetchApiKeyData env (entry_id entry) (entry_key entry)))
                            keyEntries))))
   \<and> (snd (fetchApiKeyData env i k) = []
        \<or> (\<exists>resp body. remote env i k = Resolved resp \<and> body_text resp = Some body
          \<and> snd (fetchApiKeyData env i k)
              = [''Error fetching data for key ID '' @ i @ '': '' @ show_nat (status resp)
                   @ '' '' @ body])
        \<or> (\<exists>msg. (remote env i k = Rejected msg \<or> msg = ''body unreadable''
                \<or> msg = ''body is not JSON'' \<or> msg = ''Cannot read properties of null'')
          \<and> snd (fetchApiKeyData env i k) = [''Failed to process key ID '' @ i @ '': '' @ msg]))
   \<and> (l \<in> set (balance_report keyEntries kwb)
      \<longrightarrow> l \<in> {CHR 0x0A # replicate 80 CHR ''='', ''API keys with remaining balance above 0:'',
               replicate 80 CHR ''-'', replicate 80 CHR ''='' @ [CHR 0x0A],
               ''no API key has remaining balance above 0''}
          \<or> (\<exists>e\<in>set keyEntries. \<exists>r\<in>set kwb. entry_id e = res_id r \<and> l = entry_key e))
   \<and> (e \<in> set keyEntries
        \<and> error (fst (fetchApiKeyData env (entry_id e) (entry_key e))) = None
        \<and> remaining (fst (fetchApiKeyData env (entry_id e) (entry_key e))) > 0
        \<and> find (\<lambda>x. entry_id x = entry_id e) keyEntries = Some originalEntry
      \<longrightarrow> entry_key originalEntry \<in> set (api_data_console env keyEntries))
   \<and> (i \<noteq> [] \<and> getApiKey i s = Some e \<longrightarrow> full_key i s = (200, FullKey (entry_key e)))
   \<and> set (duplicateKeys (fst (snd (batchImportKeys env keys s))))
       \<subseteq> (\<lambda>raw. maskedKey (trim raw)) ` set keys
   \<and> set (snd (snd (batchImportKeys env keys s)))
       \<subseteq> (\<lambda>raw. ''Skipped duplicate key: '' @ prefixKey (trim raw)) ` set keys
         \<union> (\<lambda>j. ''Failed to import key '' @ show_nat j @ '':'') ` {..<length keys}
   \<and> (g \<in> set (findDuplicateKeys s)
      \<longrightarrow> (\<exists>e\<in>set s. dup_key g = maskedKey (entry_key e))
          \<and> set (ids g) \<subseteq> entry_id ` set s \<and> count g = length (ids g))
   \<and> (snd (duplicates_clean env s) = (500, CleanFailed ''kv.list failed'')
        \<or> snd (duplicates_clean env s) = (500, CleanFailed ''kv.delete failed'')
        \<or> (\<exists>n. snd (duplicates_clean env s)
              = (200, Cleaned n (''Successfully deleted '' @ show_nat n @ '' duplicate keys''))))
   \<and> snd (batch_delete env ids_req s) = snd (batch_delete env ids_req s')
   \<and> set (batch_delete_console env ids_req)
       \<subseteq> (\<lambda>i. ''Failed to delete key '' @ i @ '':'') ` set ids_req
   \<and> snd (zero_balance_delete env s)
       = \<lparr>zb_deletedCount = zb_deletedCount (snd (zero_balance_delete env s)),
          totalZeroBalance = totalZeroBalance (snd (zero_balance_delete env s)),
          zb_message = ''Successfully deleted ''
            @ show_nat (zb_deletedCount (snd (zero_balance_delete env s))) @ '' zero balance keys''\<rparr>
   \<and> (l \<in> set (zero_balance_console env s)
      \<longrightarrow> (\<exists>e\<in>set s. (\<exists>msg. check_balance env e = Inl msg
                 \<and> l = ''Failed to check balance for key '' @ entry_id e @ '': '' @ msg)
               \<or> l = ''Failed to delete key '' @ entry_id e @ '':''))
   \<and> (check_balance env e = Inl msg
      \<longrightarrow> remote env (entry_id e) (entry_key e) = Rejected msg
          \<or> msg = ''body is not JSON'' \<or> msg = ''Cannot read properties of null'')
   \<and> (snd (delete_key env i s) = (400, Failed ''Key ID required'')
        \<or> snd (delete_key env i s) = (500, Failed ''kv.delete failed'')
        \<or> snd (delete_key env i s) = (200, Done))
   \<and> (snd (add_key env k nm s) = (400, Failed ''Key is required'')
        \<or> snd (add_key env k nm s) = (500, Failed ''kv.set failed'')
        \<or> snd (add_key env k nm s) = (200, DoneWithId (''key-'' @ show_nat (idTime env 0))))
   \<and> (snd (update_note env i nt s) = (400, Failed ''Key ID required'')
        \<or> snd (update_note env i nt s) = (404, Failed ''Key not found'')
        \<or> snd (update_note env i nt s) = (500, Failed ''kv.set failed'')
        \<or> snd (update_note env i nt s) = (200, DoneWithNote nt))
   \<and> (usage_route env i s = (400, UsageError ''Key ID required'' None)
        \<or> usage_route env i s = (404, UsageError ''Key not found'' None)
        \<or> (\<exists>e msg. getApiKey i s = Some e
              \<and> (remote env i (entry_key e) = Rejected msg \<or> msg = ''body unreadable''
                  \<or> msg = ''body is not JSON'')
              \<and> usage_route env i s = (500, UsageError msg None))
        \<or> (\<exists>e resp errorText. getApiKey i s = Some e \<and> remote env i (entry_key e) = Resolved resp
              \<and> body_text resp = Some errorText
              \<and> usage_route env i s
                  = (status resp, UsageError (''Factory.ai API error: '' @ show_nat (status resp))
                       (Some errorText)))
        \<or> (\<exists>e resp usageData. getApiKey i s = Some e \<and> remote env i (entry_key e) = Resolved resp
              \<and> body_json resp = Some usageData
              \<and> usage_route env i s = (200, UsageData usageData)))"
proof -
  have c1: "map (\<lambda>e. (entry_id e, entry_name e, entry_note e, createdAt e, maskedKey (entry_key e))) s
      = map (\<lambda>e. (entry_id e, entry_name e, entry_note e, createdAt e, maskedKey (entry_key e))) s'
      \<longrightarrow> list_keys s = list_keys s'"
    using list_keys_masked_only by blast
  have c2: "map masked (list_keys s) = map (\<lambda>e. maskedKey (entry_key e)) s"
    by (simp add: list_keys_def comp_def)
  have c3: "fst (getAggregatedData env keyEntries) = Inr v
      \<longrightarrow> data v = map (\<lambda>entry. fst (fetchApiKeyData env (entry_id entry) (entry_key entry)))
                     keyEntries
          \<and> update_time v = nowFormatted env \<and> total_count v = length keyEntries"
    using view_data by blast
  have c5: "res_key (failure i k m) = prefixKey k" by (simp add: failure_def)
  have c6: "error (fst (fetchApiKeyData env i k)) = None
        \<longrightarrow> res_key (fst (fetchApiKeyData env i k)) = maskedKey k"
    and c7: "error (fst (fetchApiKeyData env i k)) \<noteq> None
        \<longrightarrow> res_key (fst (fetchApiKeyData env i k)) = prefixKey k"
    by (auto simp: fetchApiKeyData_def fetchApiKeyData_try_def failure_def
        split: FetchOutcome.splits option.splits ApiData.splits sum.splits)
  have c10: "l \<in> set (balance_report keyEntries kwb)
      \<longrightarrow> l \<in> {CHR 0x0A # replicate 80 CHR ''='', ''API keys with remaining balance above 0:'',
               replicate 80 CHR ''-'', replicate 80 CHR ''='' @ [CHR 0x0A],
               ''no API key has remaining balance above 0''}
          \<or> (\<exists>e\<in>set keyEntries. \<exists>r\<in>set kwb. entry_id e = res_id r \<and> l = entry_key e)"
    using balance_report_lines by blast
  have c11: "e \<in> set keyEntries
        \<and> error (fst (fetchApiKeyData env (entry_id e) (entry_key e))) = None
        \<and> remaining (fst (fetchApiKeyData env (entry_id e) (entry_key e))) > 0
        \<and> find (\<lambda>x. entry_id x = entry_id e) keyEntries = Some originalEntry
      \<longrightarrow> entry_key originalEntry \<in> set (api_data_console env keyEntries)"
  proof
    assume a: "e \<in> set keyEntries
        \<and> error (fst (fetchApiKeyData env (entry_id e) (entry_key e))) = None
        \<and> remaining (fst (fetchApiKeyData env (entry_id e) (entry_key e))) > 0
        \<and> find (\<lambda>x. entry_id x = entry_id e) keyEntries = Some originalEntry"
    define item where "item = fst (fetchApiKeyData env (entry_id e) (entry_key e))"
    define kwb where "kwb = filter (\<lambda>r. remaining r > 0) (filter (\<lambda>r. error r = None)
        (map (\<lambda>entry. fst (fetchApiKeyData env (entry_id entry) (entry_key entry))) keyEntries))"
    have "item \<in> set kwb"
      using a unfolding kwb_def item_def by force
    moreover have "res_id item = entry_id e" by (simp add: item_def res_id_fetch)
    ultimately have "entry_key originalEntry \<in> set (balance_report keyEntries kwb)"
      using a balance_report_key by simp
    moreover have "keyEntries \<noteq> []" using a by auto
    ultimately show "entry_key originalEntry \<in> set (api_data_console env keyEntries)"
      by (simp add: api_data_console_eq kwb_def)
  qed
  have c12: "i \<noteq> [] \<and> getApiKey i s = Some e \<longrightarrow> full_key i s = (200, FullKey (entry_key e))"
    by (simp add: full_key_def)
  have c15: "g \<in> set (findDuplicateKeys s)
      \<longrightarrow> (\<exists>e\<in>set s. dup_key g = maskedKey (entry_key e))
          \<and> set (ids g) \<subseteq> entry_id ` set s \<and> count g = length (ids g)"
    using duplicate_group_forms by blast
  have c20: "l \<in> set (zero_balance_console env s)
      \<longrightarrow> (\<exists>e\<in>set s. (\<exists>msg. check_balance env e = Inl msg
                 \<and> l = ''Failed to check balance for key '' @ entry_id e @ '': '' @ msg)
               \<or> l = ''Failed to delete key '' @ entry_id e @ '':'')"
    using zero_balance_console_forms by blast
  have c21: "check_balance env e = Inl msg
      \<longrightarrow> remote env (entry_id e) (entry_key e) = Rejected msg
          \<or> msg = ''body is not JSON'' \<or> msg = ''Cannot read properties of null''"
    using check_balance_messages by blast
  show ?thesis
    by (intro conjI; fact c1 c2 c3 fetch_result_forms c5 c6 c7 api_data_console_eq
        fetch_console_forms c10 c11 c12 batchImportKeys_outputs [THEN conjunct1]
        batchImportKeys_outputs [THEN conjunct2] c15 duplicates_clean_forms
        batch_delete_outputs batch_delete_console_lines zero_balance_body c20 c21
        delete_key_forms add_key_forms update_note_forms usage_route_forms)
qed

theorem secret_exposure_witness:
  "list_keys [entryA] = list_keys [entryA\<lparr>entry_key := ''sk-l0001''\<rparr>]
   \<and> map masked (list_keys [entryA]) = [''sk-l...0001'']
   \<and> (\<exists>v. fst (getAggregatedData scenario_env [entryA, entryB, entryC]) = Inr v
        \<and> map res_key (data v) = [''sk-l...0001'', ''sk-l...0002'', ''sk-l...'']
        \<and> map error (data v) = [None, None, Some ''HTTP 401''])
   \<and> error (fst (fetchApiKeyData scenario_env ''key-1-0'' ''sk-live-AAAA-0001'')) = None
   \<and> res_key (fst (fetchApiKeyData scenario_env ''key-1-0'' ''sk-live-AAAA-0001'')) = ''sk-l...0001''
   \<and> error (fst (fetchApiKeyData scenario_env ''key-1-2'' ''sk-live-CCCC-0003'')) = Some ''HTTP 401''
   \<and> res_key (fst (fetchApiKeyData scenario_env ''key-1-2'' ''sk-live-CCCC-0003'')) = ''sk-l...''
   \<and> ''sk-live-AAAA-0001''
        \<in> set (balance_report [entryA, entryB, entryC]
                 [fst (fetchApiKeyData scenario_env ''key-1-0'' ''sk-live-AAAA-0001'')])
   \<and> (''sk-live-AAAA-0001''
          \<in> {CHR 0x0A # replicate 80 CHR ''='', ''API keys with remaining balance above 0:'',
              replicate 80 CHR ''-'', replicate 80 CHR ''='' @ [CHR 0x0A],
              ''no API key has remaining balance above 0''}
        \<or> list_ex (\<lambda>e. list_ex (\<lambda>r. entry_id e = res_id r \<and> ''sk-live-AAAA-0001'' = entry_key e)
                     [fst (fetchApiKeyData scenario_env ''key-1-0'' ''sk-live-AAAA-0001'')])
             [entryA, entryB, entryC])
   \<and> ''sk-live-AAAA-0001'' \<in> set (api_data_console scenario_env [entryA, entryB, entryC])
   \<and> full_key ''key-1-0'' [entryA] = (200, FullKey ''sk-live-AAAA-0001'')
   \<and> \<lparr>dup_key = ''sk-l...0009'',
        ids = [''key-1700000000001'', ''key-1700000000002'', ''key-1700000000003''],
        count = 3\<rparr> \<in> set (findDuplicateKeys dup_store)
   \<and> list_ex (\<lambda>e. ''sk-l...0009'' = maskedKey (entry_key e)) dup_store
   \<and> ''Failed to check balance for key key-9: network unreachable''
        \<in> set (zero_balance_console scenario_env [entryA\<lparr>entry_id := ''key-9'', entry_key := ''sk-gone''\<rparr>])
   \<and> list_ex (\<lambda>e. (\<exists>msg. check_balance scenario_env e = Inl msg
                 \<and> ''Failed to check balance for key key-9: network unreachable''
                     = ''Failed to check balance for key '' @ entry_id e @ '': '' @ msg)
               \<or> ''Failed to check balance for key key-9: network unreachable''
                     = ''Failed to delete key '' @ entry_id e @ '':'')
        [entryA\<lparr>entry_id := ''key-9'', entry_key := ''sk-gone''\<rparr>]
   \<and> check_balance scenario_env (entryA\<lparr>entry_id := ''key-9'', entry_key := ''sk-gone''\<rparr>)
        = Inl ''network unreachable''
   \<and> remote scenario_env ''key-9'' ''sk-gone'' = Rejected ''network unreachable''"
proof -
  define gone where "gone = entryA\<lparr>entry_id := ''key-9'', entry_key := ''sk-gone''\<rparr>"
  define grp where "grp = \<lparr>dup_key = ''sk-l...0009'',
        ids = [''key-1700000000001'', ''key-1700000000002'', ''key-1700000000003''],
        count = 3\<rparr>"
  define line where "line = ''Failed to check balance for key key-9: network unreachable''"
  obtain v where v: "fst (getAggregatedData scenario_env [entryA, entryB, entryC]) = Inr v"
    by (simp add: getAggregatedData_def Let_def)
  have fa: "fst (fetchApiKeyData scenario_env ''key-1-0'' ''sk-live-AAAA-0001'')
      = \<lparr>res_id = ''key-1-0'', res_key = ''sk-l...0001'', error = None,
        startDate = Some ''2023-11-14'', endDate = Some ''2023-11-14'',
        orgTotalTokensUsed = Number 400, totalAllowance = Number 1000, usedRatio = Number (2 / 5)\<rparr>"
    using scenario_results by (simp add: entryA_def)
  have fc: "fst (fetchApiKeyData scenario_env ''key-1-2'' ''sk-live-CCCC-0003'')
      = \<lparr>res_id = ''key-1-2'', res_key = ''sk-l...'', error = Some ''HTTP 401'',
        startDate = None, endDate = None,
        orgTotalTokensUsed = Undefined, totalAllowance = Undefined, usedRatio = Undefined\<rparr>"
    using scenario_results by (simp add: entryC_def)
  note T = secret_exposure [where s = "[entryA]" and s' = "[entryA\<lparr>entry_key := ''sk-l0001''\<rparr>]"
        and env = scenario_env and keyEntries = "[entryA, entryB, entryC]" and v = v
        and e = entryA and originalEntry = entryA and i = "''key-1-0''"
        and k = "''sk-live-AAAA-0001''" and l = "''sk-live-AAAA-0001''"
        and kwb = "[fst (fetchApiKeyData scenario_env ''key-1-0'' ''sk-live-AAAA-0001'')]"]
  note U = secret_exposure [where s = "[gone]" and env = scenario_env and e = gone
        and i = "''key-1-2''" and k = "''sk-live-CCCC-0003''" and l = line
        and msg = "''network unreachable''"]
  note D = secret_exposure [where s = dup_store and g = grp]
  have same: "map (\<lambda>e. (entry_id e, entry_name e, entry_note e, createdAt e, maskedKey (entry_key e)))
        [entryA]
      = map (\<lambda>e. (entry_id e, entry_name e, entry_note e, createdAt e, maskedKey (entry_key e)))
        [entryA\<lparr>entry_key := ''sk-l0001''\<rparr>]"
    by (simp add: entryA_def maskedKey_def)
  have w1: "list_keys [entryA] = list_keys [entryA\<lparr>entry_key := ''sk-l0001''\<rparr>]"
    using T [THEN conjunct1] same by (rule mp)
  have w2: "map masked (list_keys [entryA]) = [''sk-l...0001'']"
    using T [THEN conjunct2, THEN conjunct1] by (simp add: entryA_def maskedKey_def)
  have "data v = map (\<lambda>entry. fst (fetchApiKeyData scenario_env (entry_id entry) (entry_key entry)))
                     [entryA, entryB, entryC]
          \<and> update_time v = nowFormatted scenario_env \<and> total_count v = length [entryA, entryB, entryC]"
    using T [THEN conjunct2, THEN conjunct2, THEN conjunct1] v by (rule mp)
  then have w3: "map res_key (data v) = [''sk-l...0001'', ''sk-l...0002'', ''sk-l...'']
        \<and> map error (data v) = [None, None, Some ''HTTP 401'']"
    unfolding scenario_results by simp
  have w4: "error (fst (fetchApiKeyData scenario_env ''key-1-0'' ''sk-live-AAAA-0001'')) = None"
    unfolding fa by simp
  have "res_key (fst (fetchApiKeyData scenario_env ''key-1-0'' ''sk-live-AAAA-0001''))
      = maskedKey ''sk-live-AAAA-0001''"
    using T [THEN conjunct2, THEN conjunct2, THEN conjunct2, THEN conjunct2, THEN conjunct2, THEN conjunct1] w4 by (rule mp)
  then have w5: "res_key (fst (fetchApiKeyData scenario_env ''key-1-0'' ''sk-live-AAAA-0001''))
      = ''sk-l...0001''"
    by (simp add: maskedKey_def)
  have w6: "error (fst (fetchApiKeyData scenario_env ''key-1-2'' ''sk-live-CCCC-0003'')) = Some ''HTTP 401''"
    unfolding fc by simp
  then have "error (fst (fetchApiKeyData scenario_env ''key-1-2'' ''sk-live-CCCC-0003'')) \<noteq> None"
    by simp
  with U [THEN conjunct2, THEN conjunct2, THEN conjunct2, THEN conjunct2, THEN conjunct2, THEN conjunct2, THEN conjunct1]
  have "res_key (fst (fetchApiKeyData scenario_env ''key-1-2'' ''sk-live-CCCC-0003''))
      = prefixKey ''sk-live-CCCC-0003''"
    by (rule mp)
  then have w7: "res_key (fst (fetchApiKeyData scenario_env ''key-1-2'' ''sk-live-CCCC-0003''))
      = ''sk-l...''"
    by (simp add: prefixKey_def)
  have w8: "''sk-live-AAAA-0001''
        \<in> set (balance_report [entryA, entryB, entryC]
                 [fst (fetchApiKeyData scenario_env ''key-1-0'' ''sk-live-AAAA-0001'')])"
    unfolding fa by (simp add: balance_report_def entryA_def entryB_def entryC_def)
  have "''sk-live-AAAA-0001''
          \<in> {CHR 0x0A # replicate 80 CHR ''='', ''API keys with remaining balance above 0:'',
              replicate 80 CHR ''-'', replicate 80 CHR ''='' @ [CHR 0x0A],
              ''no API key has remaining balance above 0''}
        \<or> (\<exists>e\<in>set [entryA, entryB, entryC].
              \<exists>r\<in>set [fst (fetchApiKeyData scenario_env ''key-1-0'' ''sk-live-AAAA-0001'')].
                 entry_id e = res_id r \<and> ''sk-live-AAAA-0001'' = entry_key e)"
    using T [THEN conjunct2, THEN conjunct2, THEN conjunct2, THEN conjunct2, THEN conjunct2, THEN conjunct2, THEN conjunct2, THEN conjunct2, THEN conjunct2, THEN conjunct1] w8 by (rule mp)
  then have w9: "''sk-live-AAAA-0001''
          \<in> {CHR 0x0A # replicate 80 CHR ''='', ''API keys with remaining balance above 0:'',
              replicate 80 CHR ''-'', replicate 80 CHR ''='' @ [CHR 0x0A],
              ''no API key has remaining balance above 0''}
        \<or> list_ex (\<lambda>e. list_ex (\<lambda>r. entry_id e = res_id r \<and> ''sk-live-AAAA-0001'' = entry_key e)
                     [fst (fetchApiKeyData scenario_env ''key-1-0'' ''sk-live-AAAA-0001'')])
             [entryA, entryB, entryC]"
    by (simp only: list_ex_iff)
  have fa': "fst (fetchApiKeyData scenario_env (entry_id entryA) (entry_key entryA))
      = \<lparr>res_id = ''key-1-0'', res_key = ''sk-l...0001'', error = None,
        startDate = Some ''2023-11-14'', endDate = Some ''2023-11-14'',
        orgTotalTokensUsed = Number 400, totalAllowance = Number 1000, usedRatio = Number (2 / 5)\<rparr>"
    using scenario_results by simp
  have hyp: "entryA \<in> set [entryA, entryB, entryC]
        \<and> error (fst (fetchApiKeyData scenario_env (entry_id entryA) (entry_key entryA))) = None
        \<and> remaining (fst (fetchApiKeyData scenario_env (entry_id entryA) (entry_key entryA))) > 0
        \<and> find (\<lambda>x. entry_id x = entry_id entryA) [entryA, entryB, entryC] = Some entryA"
    unfolding fa' by (simp add: remaining_def or0_def)
  have "entry_key entryA \<in> set (api_data_console scenario_env [entryA, entryB, entryC])"
    using T [THEN conjunct2, THEN conjunct2, THEN conjunct2, THEN conjunct2, THEN conjunct2, THEN conjunct2, THEN conjunct2, THEN conjunct2, THEN conjunct2, THEN conjunct2, THEN conjunct1] hyp by (rule mp)
  then have w10: "''sk-live-AAAA-0001''
      \<in> set (api_data_console scenario_env [entryA, entryB, entryC])"
    by (simp add: entryA_def)
  have gk: "''key-1-0'' \<noteq> [] \<and> getApiKey ''key-1-0'' [entryA] = Some entryA"
    by (simp add: getApiKey_def entryA_def)
  have "full_key ''key-1-0'' [entryA] = (200, FullKey (entry_key entryA))"
    using T [THEN conjunct2, THEN conjunct2, THEN conjunct2, THEN conjunct2, THEN conjunct2, THEN conjunct2, THEN conjunct2, THEN conjunct2, THEN conjunct2, THEN conjunct2, THEN conjunct2, THEN conjunct1] gk by (rule mp)
  then have w11: "full_key ''key-1-0'' [entryA] = (200, FullKey ''sk-live-AAAA-0001'')"
    by (simp add: entryA_def)
  have w12: "grp \<in> set (findDuplicateKeys dup_store)"
    by (simp add: dup_groups grp_def)
  have "(\<exists>e\<in>set dup_store. dup_key grp = maskedKey (entry_key e))
          \<and> set (ids grp) \<subseteq> entry_id ` set dup_store \<and> count grp = length (ids grp)"
    using D [THEN conjunct2, THEN conjunct2, THEN conjunct2, THEN conjunct2, THEN conjunct2, THEN conjunct2, THEN conjunct2, THEN conjunct2, THEN conjunct2, THEN conjunct2, THEN conjunct2, THEN conjunct2, THEN conjunct2, THEN conjunct2, THEN conjunct1] w12 by (rule mp)
  then have "\<exists>e\<in>set dup_store. dup_key grp = maskedKey (entry_key e)" by (rule conjunct1)
  then have w13: "list_ex (\<lambda>e. ''sk-l...0009'' = maskedKey (entry_key e)) dup_store"
    by (simp add: list_ex_iff grp_def)
  have cb: "check_balance scenario_env gone = Inl ''network unreachable''"
    by (simp add: check_balance_def gone_def scenario_defs)
  have w14: "line \<in> set (zero_balance_console scenario_env [gone])"
    by (simp add: zero_balance_console_def cb has_zero_balance_def)
      (simp add: gone_def line_def)
  have "\<exists>e\<in>set [gone]. (\<exists>msg. check_balance scenario_env e = Inl msg
                 \<and> line = ''Failed to check balance for key '' @ entry_id e @ '': '' @ msg)
               \<or> line = ''Failed to delete key '' @ entry_id e @ '':''"
    using U [THEN conjunct2, THEN conjunct2, THEN conjunct2, THEN conjunct2, THEN conjunct2, THEN conjunct2, THEN conjunct2, THEN conjunct2, THEN conjunct2, THEN conjunct2, THEN conjunct2, THEN conjunct2, THEN conjunct2, THEN conjunct2, THEN conjunct2, THEN conjunct2, THEN conjunct2, THEN conjunct2, THEN conjunct2, THEN conjunct1] w14 by (rule mp)
  then have w15: "list_ex (\<lambda>e. (\<exists>msg. check_balance scenario_env e = Inl msg
                 \<and> line = ''Failed to check balance for key '' @ entry_id e @ '': '' @ msg)
               \<or> line = ''Failed to delete key '' @ entry_id e @ '':'') [gone]"
    by (simp only: list_ex_iff)
  have "remote scenario_env (entry_id gone) (entry_key gone) = Rejected ''network unreachable''
          \<or> ''network unreachable'' = ''body is not JSON''
          \<or> ''network unreachable'' = ''Cannot read properties of null''"
    using U [THEN conjunct2, THEN conjunct2, THEN conjunct2, THEN conjunct2, THEN conjunct2, THEN conjunct2, THEN conjunct2, THEN conjunct2, THEN conjunct2, THEN conjunct2, THEN conjunct2, THEN conjunct2, THEN conjunct2, THEN conjunct2, THEN conjunct2, THEN conjunct2, THEN conjunct2, THEN conjunct2, THEN conjunct2, THEN conjunct2, THEN conjunct1] cb by (rule mp)
  then have w17: "remote scenario_env ''key-9'' ''sk-gone'' = Rejected ''network unreachable''"
    by (simp add: gone_def)
  have ex: "\<exists>v. fst (getAggregatedData scenario_env [entryA, entryB, entryC]) = Inr v
        \<and> map res_key (data v) = [''sk-l...0001'', ''sk-l...0002'', ''sk-l...'']
        \<and> map error (data v) = [None, None, Some ''HTTP 401'']"
  proof (rule exI [where x = v])
    show "fst (getAggregatedData scenario_env [entryA, entryB, entryC]) = Inr v
        \<and> map res_key (data v) = [''sk-l...0001'', ''sk-l...0002'', ''sk-l...'']
        \<and> map error (data v) = [None, None, Some ''HTTP 401'']"
      using v w3 by (rule conjI)
  qed
  note ws = w12 [unfolded grp_def] w14 [unfolded gone_def line_def]
    w15 [unfolded gone_def line_def] cb [unfolded gone_def]
  show ?thesis
    by (intro conjI; fact w1 w2 ex w4 w5 w6 w7 w8 w9 w10 w11 w13 w17 ws)
qed

text \<open>
  Claim C10 as stated fails: in the scenario, the console output of the aggregation has
  the secret of credential A, unmasked, as one of its lines.
\<close>

theorem aggregation_logs_secret_counterexample:
  "''sk-live-AAAA-0001'' \<in> set (snd (getAggregatedData scenario_env [entryA, entryB, entryC]))
   \<and> entry_key entryA = ''sk-live-AAAA-0001''
   \<and> ''sk-live-AAAA-0001'' \<noteq> maskedKey ''sk-live-AAAA-0001''"
proof -
  have "snd (getAggregatedData scenario_env [entryA, entryB, entryC])
      = concat (map (\<lambda>entry. snd (fetchApiKeyData scenario_env (entry_id entry) (entry_key entry)))
          [entryA, entryB, entryC])
        @ balance_report [entryA, entryB, entryC]
            (filter (\<lambda>r. remaining r > 0) (filter (\<lambda>r. \<not> has_error r)
              (map (\<lambda>entry. fst (fetchApiKeyData scenario_env (entry_id entry) (entry_key entry)))
                 [entryA, entryB, entryC])))"
    by (simp add: getAggregatedData_def Let_def comp_def)
  also have "balance_report [entryA, entryB, entryC]
            (filter (\<lambda>r. remaining r > 0) (filter (\<lambda>r. \<not> has_error r)
              (map (\<lambda>entry. fst (fetchApiKeyData scenario_env (entry_id entry) (entry_key entry)))
                 [entryA, entryB, entryC])))
       = [CHR 0x0A # replicate 80 CHR ''='', ''API keys with remaining balance above 0:'',
          replicate 80 CHR ''-'', ''sk-live-AAAA-0001'', replicate 80 CHR ''='' @ [CHR 0x0A]]"
    unfolding scenario_results
    by (simp add: balance_report_def remaining_def or0_def has_error_def entryA_def entryB_def entryC_def)
  finally show ?thesis
    by (simp add: entryA_def maskedKey_def)
qed


end
